theory Spec2Isabelle
  imports Main "HOL-Library.Word" "HOL-Library.Monad_Syntax" "HOL-Library.AList"
begin

unbundle bit_operations_syntax

section \<open>Machine types\<close>

type_synonym byte = "8 word"
type_synonym u64 = "64 word"

text \<open>A Go \<open>int64\<close> is kept as its 64-bit pattern; \<open>sint\<close> reads its value.\<close>

type_synonym i64 = "64 word"

section \<open>Header and block hash (core/header/header.go)\<close>

text \<open>
  The header as the Go struct has it. \<open>ParentHash\<close> and \<open>StateRoot\<close> are \<open>[32]byte\<close>
  arrays, kept as byte lists (of length 32 in every well-formed header); \<open>Bits\<close> is a
  \<open>*big.Int\<close>, \<open>None\<close> standing for the nil pointer; \<open>Timestamp\<close> is the instant of the
  \<open>time.Time\<close>, in nanoseconds since the Unix epoch.
\<close>

record header =
  Height :: u64
  ParentHash :: "byte list"
  Lhat :: i64
  Bits :: "int option"
  Timestamp :: int
  StateRoot :: "byte list"
  Nonce :: u64

text \<open>\<open>binary.LittleEndian.PutUint64\<close>: byte \<open>i\<close> is \<open>v >> (8 * i)\<close>, truncated.\<close>

definition PutUint64 :: "u64 \<Rightarrow> byte list" where
  "PutUint64 v = map (\<lambda>i. ucast (drop_bit (8 * i) v)) [0..<8]"

text \<open>
  Writing into the sub-slice \<open>buf[lo:hi]\<close> of a buffer: Go's \<open>copy\<close> moves as many
  bytes as the shorter of destination and source holds, and leaves the rest of the buffer.
\<close>

definition copy_into :: "byte list \<Rightarrow> nat \<Rightarrow> nat \<Rightarrow> byte list \<Rightarrow> byte list" where
  "copy_into buf lo hi src =
     (let n = min (min hi (length buf) - lo) (length src)
      in take lo buf @ take n src @ drop (lo + n) buf)"

text \<open>
  \<open>Header.Hash\<close>. The digest function \<open>sha3.Sum256\<close> belongs to the Go standard library
  and is a parameter. A nil header hashes to the zero array.
\<close>

definition Hash :: "(byte list \<Rightarrow> byte list) \<Rightarrow> header option \<Rightarrow> byte list" where
  "Hash sha3_Sum256 h =
     (case h of
        None \<Rightarrow> replicate 32 0
      | Some hdr \<Rightarrow>
          (let buf0 = replicate 48 0;
               buf1 = copy_into buf0 0 8 (PutUint64 (Height hdr));
               buf2 = copy_into buf1 8 40 (ParentHash hdr);
               buf3 = copy_into buf2 40 48 (PutUint64 (Nonce hdr))
           in sha3_Sum256 buf3))"

section \<open>Subsidy schedule (package core, \<open>GetSubsidy\<close>)\<close>

definition InitialSubsidy :: int where
  "InitialSubsidy = 50"

definition HalvingBlocks :: u64 where
  "HalvingBlocks = 210000"

text \<open>
  \<open>GetSubsidy\<close>: the number of halvings is an unsigned 64-bit division; from 64
  halvings on the result is the constant 0, below that the big integer 50 is shifted right.
\<close>

definition GetSubsidy :: "u64 \<Rightarrow> int" where
  "GetSubsidy height =
     (let halvings = height div HalvingBlocks
      in if halvings \<ge> 64 then 0
         else drop_bit (unat halvings) InitialSubsidy)"

section \<open>Errors\<close>

text \<open>
  The Go code reports failures as formatted error strings; the constructors name them.
  \<open>NilDereference\<close> is the run-time panic of a nil pointer dereference.
\<close>

datatype error =
    NilDereference
  | AdjustNilHeader
  | AdjustNilBits
  | AdjustMissingHeader u64
  | Duplicate
  | OrphanQueued
  | SideBranched
  | HashMismatch
  | DifficultyError error
  | LLMLoadFailed
  | TxVerifyFailed nat error
  | NoSignature
  | InvalidSignature
  | SenderMismatch
  | EmptyPrompt
  | InferenceFailed
  | InvalidLoss
  | TargetNotMet
  | MalformedBlock
  | MarshalError

section \<open>Big integers\<close>

text \<open>
  \<open>big.Int.Int64\<close>: the low 64 bits of the magnitude, negated (with wrap-around) when the
  number is negative.
\<close>

definition Int64 :: "int \<Rightarrow> i64" where
  "Int64 x = (let v = (word_of_int \<bar>x\<bar> :: 64 word) in if x < 0 then - v else v)"

text \<open>
  \<open>big.Int.Div\<close> is Euclidean division: the remainder is never negative. (Go's \<open>/\<close> on
  machine integers, and \<open>big.Int.Quo\<close>, truncate toward zero instead.) The divisor is
  nonzero wherever the code calls it.
\<close>

definition big_Div :: "int \<Rightarrow> int \<Rightarrow> int" where
  "big_Div x y = (if 0 < y then x div y else - (x div (- y)))"

section \<open>Difficulty retarget (package core, \<open>Adjust\<close>; package config)\<close>

definition RetargetInterval :: nat where
  "RetargetInterval = 2016"

definition TargetBlockSpacingSec :: int where
  "TargetBlockSpacingSec = 600"

definition MaxAdjustmentFactor :: int where
  "MaxAdjustmentFactor = 4"

text \<open>\<open>time.Second\<close>, in the nanoseconds a \<open>time.Duration\<close> counts.\<close>

definition Second :: int where
  "Second = 1000000000"

text \<open>
  \<open>Time.Sub\<close>: the difference of two instants as a \<open>Duration\<close> (a signed 64-bit count of
  nanoseconds), saturating at the smallest and largest duration.
\<close>

definition Time_Sub :: "int \<Rightarrow> int \<Rightarrow> int" where
  "Time_Sub t u =
     (let d = t - u
      in if d < - (2 ^ 63) then - (2 ^ 63)
         else if 2 ^ 63 - 1 < d then 2 ^ 63 - 1
         else d)"

text \<open>
  \<open>int64(d.Seconds())\<close> for a duration \<open>d\<close> that is not negative: \<open>Seconds\<close> adds the whole
  seconds and the fraction \<open>nsec / 1e9\<close> as a \<open>float64\<close> and the conversion drops the
  fraction. \<open>Adjust\<close> converts durations between 302400 s and 4838400 s only, where the sum
  is below the next whole second by more than half a unit in the last place, so the result
  is the number of whole seconds.
\<close>

definition Seconds_int64 :: "int \<Rightarrow> int" where
  "Seconds_int64 d = d div Second"

text \<open>
  The numbered steps of \<open>Adjust\<close>, each as the code writes it. Step 3 clamps the
  actual timespan to \<open>[expected / MaxFactor, expected * MaxFactor]\<close> (all 64-bit
  durations; with the constants of the configuration nothing overflows).
\<close>

definition expected_timespan :: int where
  "expected_timespan = int RetargetInterval * Second * TargetBlockSpacingSec"

definition clamp_timespan :: "int \<Rightarrow> int" where
  "clamp_timespan actual =
     (let minSpan = expected_timespan div MaxAdjustmentFactor;
          maxSpan = expected_timespan * MaxAdjustmentFactor
      in if actual < minSpan then minSpan
         else if actual > maxSpan then maxSpan
         else actual)"

text \<open>Step 4: \<open>newT = oldT * actual / expected\<close>, in whole seconds, on big integers.\<close>

definition scale_target :: "int \<Rightarrow> int \<Rightarrow> int" where
  "scale_target oldT actual =
     (let expectedSeconds = Seconds_int64 expected_timespan;
          expectedSeconds = (if expectedSeconds = 0 then 1 else expectedSeconds);
          newT = oldT * Seconds_int64 actual
      in big_Div newT expectedSeconds)"

text \<open>Step 5: the bounds for negative targets, \<open>-1\<close> the easiest and \<open>-2^63\<close> the hardest.\<close>

definition bound_target :: "int \<Rightarrow> int" where
  "bound_target newT =
     (let minTarget = - 1;
          maxTarget = - (2 ^ 63);
          newT = (if newT > minTarget then minTarget else newT)
      in if newT < maxTarget then maxTarget else newT)"

text \<open>
  \<open>Adjust\<close> returns a big integer together with an error, as the Go function does (the
  integer is never nil). The chain reader is the function \<open>HeaderByHeight\<close>.
\<close>

definition Adjust :: "(u64 \<Rightarrow> header option) \<Rightarrow> header option \<Rightarrow> int \<times> error option" where
  "Adjust HeaderByHeight tip =
     (case tip of
        None \<Rightarrow> (1, Some AdjustNilHeader)
      | Some t \<Rightarrow>
         (case Bits t of
            None \<Rightarrow> (1, Some AdjustNilBits)
          | Some bits \<Rightarrow>
             (let interval = (of_nat RetargetInterval :: u64)
              in if Height t < interval then (bits, None)
                 else
                   (let firstHeight = Height t - interval + 1
                    in case HeaderByHeight firstHeight of
                         None \<Rightarrow> (bits, Some (AdjustMissingHeader firstHeight))
                       | Some first \<Rightarrow>
                          (let actual = Time_Sub (Timestamp t) (Timestamp first);
                               actual = clamp_timespan actual;
                               newT = scale_target bits actual
                           in (bound_target newT, None))))))"

text \<open>
  The retarget rule in the words of the specification (section 4.3), for comparison with
  \<open>Adjust\<close>: spans in seconds, the span clamped to
  \<open>[expected / 4, expected * 4]\<close>, the quotient rounded toward zero, the result saturated.
\<close>

definition quot_toward_zero :: "int \<Rightarrow> int \<Rightarrow> int" where
  "quot_toward_zero a b =
     (if (a < 0) = (b < 0) then \<bar>a\<bar> div \<bar>b\<bar> else - (\<bar>a\<bar> div \<bar>b\<bar>))"

definition spec_new_bits :: "int \<Rightarrow> int \<Rightarrow> int" where
  "spec_new_bits tip_bits actual_span =
     (let expected_span = 2016 * 600;
          clamped_span = max (expected_span div 4) (min (expected_span * 4) actual_span);
          new_bits = quot_toward_zero (tip_bits * clamped_span) expected_span;
          new_bits = (if new_bits > - 1 then - 1 else new_bits)
      in if new_bits < - (2 ^ 63) then - (2 ^ 63) else new_bits)"

section \<open>Miner target (package miner, \<open>WorkLoop\<close>)\<close>


text \<open>
  The retarget step that follows: at a retarget height the target becomes the adjusted
  one, unless \<open>Adjust\<close> reports an error.
\<close>

definition WorkLoop_retarget ::
  "(u64 \<Rightarrow> header option) \<Rightarrow> header \<Rightarrow> i64 \<Rightarrow> i64" where
  "WorkLoop_retarget HeaderByHeight parent currentTarget =
     (let height = Height parent + 1
      in if height mod (of_nat RetargetInterval) = 0 \<and> Height parent > 0
         then (case Adjust HeaderByHeight (Some parent) of
                 (t, None) \<Rightarrow> Int64 t
               | (t, Some err) \<Rightarrow> currentTarget)
         else currentTarget)"

section \<open>Serving block requests (net/p2p.go, net/topics.go)\<close>

record BlockRequest =
  From :: u64
  To :: u64

text \<open>
  The serving loop \<open>for h := req.From; h <= req.To; h++\<close> over unsigned 64-bit heights.
  When \<open>req.To\<close> is the largest 64-bit value the condition never fails and the loop does
  not end: the result is \<open>None\<close>. \<open>BlockByHeight\<close> is the main-chain lookup.
\<close>

partial_function (option) serve_loop ::
  "(u64 \<Rightarrow> 'b option) \<Rightarrow> u64 \<Rightarrow> u64 \<Rightarrow> 'b list \<Rightarrow> 'b list option" where
  "serve_loop BlockByHeight h stop blocks =
     (if h \<le> stop
      then serve_loop BlockByHeight (h + 1) stop
             (case BlockByHeight h of Some blk \<Rightarrow> blocks @ [blk] | None \<Rightarrow> blocks)
      else Some blocks)"

text \<open>
  One round of \<open>handleBlockReq\<close>: cap the request, collect the blocks, publish them. The
  result is the list of blocks of the published response.
\<close>

definition cap_request :: "BlockRequest \<Rightarrow> BlockRequest" where
  "cap_request req = (if To req - From req > 512 then req\<lparr>To := From req + 512\<rparr> else req)"

definition handleBlockReq :: "(u64 \<Rightarrow> 'b option) \<Rightarrow> BlockRequest \<Rightarrow> 'b list option" where
  "handleBlockReq BlockByHeight req =
     (let req = cap_request req
      in serve_loop BlockByHeight (From req) (To req) [])"

section \<open>Transactions and blocks (core/tx.go; package core, \<open>Block\<close>)\<close>

text \<open>
  A Go slice is a list or nil; JSON tells the two apart (\<open>null\<close> against an empty
  value), the rest of the code only asks for the length.
\<close>

type_synonym 'a slice = "'a list option"

definition len :: "'a slice \<Rightarrow> nat" where
  "len s = (case s of None \<Rightarrow> 0 | Some xs \<Rightarrow> length xs)"

definition elems :: "'a slice \<Rightarrow> 'a list" where
  "elems s = (case s of None \<Rightarrow> [] | Some xs \<Rightarrow> xs)"

text \<open>\<open>Amount\<close> and \<open>GasPrice\<close> are \<open>*big.Int\<close>, \<open>None\<close> the nil pointer.\<close>

record Transaction =
  tx_From :: "byte slice"
  tx_To :: "byte slice"
  Amount :: "int option"
  tx_Nonce :: u64
  GasLimit :: u64
  GasPrice :: "int option"
  Signature :: "byte slice"
  tx_Hash :: "byte slice"

text \<open>
  \<open>Transactions\<close> is a slice of pointers, each of which may be nil. \<open>Time\<close> is an instant
  like the header's timestamp.
\<close>

record Block =
  Header :: header
  Transactions :: "Transaction option slice"
  MerkleRoot :: "byte slice"
  Time :: int
  Receipts :: "byte slice"

text \<open>\<open>Block.Hash\<close> is the hash of the header.\<close>

definition Block_Hash :: "(byte list \<Rightarrow> byte list) \<Rightarrow> Block \<Rightarrow> byte list" where
  "Block_Hash sha3_Sum256 b = Hash sha3_Sum256 (Some (Header b))"

section \<open>Decimal text of big integers\<close>

definition digit_char :: "nat \<Rightarrow> char" where
  "digit_char d = char_of (48 + d)"

fun nat_decimal :: "nat \<Rightarrow> string" where
  "nat_decimal n = (if n < 10 then [digit_char n] else nat_decimal (n div 10) @ [digit_char (n mod 10)])"

text \<open>\<open>big.Int.String\<close>: the decimal text, with a minus sign for a negative number.\<close>

definition big_String :: "int \<Rightarrow> string" where
  "big_String x = (if x < 0 then CHR ''-'' # nat_decimal (nat (- x)) else nat_decimal (nat x))"

definition digit_value :: "char \<Rightarrow> nat option" where
  "digit_value c =
     (let v = (of_char c :: nat) in if 48 \<le> v \<and> v \<le> 57 then Some (v - 48) else None)"

text \<open>Reading digits from the left: the value so far and the text that is left.\<close>

fun scan_digits :: "nat \<Rightarrow> string \<Rightarrow> nat \<times> string" where
  "scan_digits acc [] = (acc, [])"
| "scan_digits acc (c # cs) =
     (case digit_value c of
        None \<Rightarrow> (acc, c # cs)
      | Some d \<Rightarrow> scan_digits (acc * 10 + d) cs)"

text \<open>
  \<open>big.Int.SetString(s, 10)\<close>: an optional sign, then decimal digits, at least one, and
  nothing after them. The second component is the success flag; on failure Go leaves the
  value of the receiver unspecified, and the model keeps what was read so far.
\<close>

definition big_SetString :: "string \<Rightarrow> int \<times> bool" where
  "big_SetString s =
     (let (neg, body) = (case s of
                           c # cs \<Rightarrow> if c = CHR ''-'' then (True, cs)
                                      else if c = CHR ''+'' then (False, cs)
                                      else (False, s)
                         | [] \<Rightarrow> (False, s));
          (v, rest) = scan_digits 0 body;
          ok = (rest = [] \<and> body \<noteq> [] \<and> digit_value (hd body) \<noteq> None)
      in (if neg then - int v else int v, ok))"

section \<open>JSON encoding of blocks (core/header/header.go; package core, \<open>Encode\<close> and \<open>DecodeBlock\<close>)\<close>

text \<open>
  A JSON document as a tree. The texts that \<open>encoding/json\<close> writes for a byte slice
  (base64) and for a \<open>time.Time\<close> (RFC 3339) belong to the standard library and are kept
  as the leaves \<open>JBytes\<close> and \<open>JTime\<close>; they are JSON strings on the wire.
\<close>

datatype json =
    JNull
  | JNumber int
  | JString string
  | JBytes "byte list"
  | JTime int
  | JArray "json list"
  | JObject "(string \<times> json) list"

text \<open>The encoders of \<open>encoding/json\<close> for the field types of headers and blocks.\<close>

definition enc_uint64 :: "u64 \<Rightarrow> json" where
  "enc_uint64 v = JNumber (uint v)"

definition enc_int64 :: "i64 \<Rightarrow> json" where
  "enc_int64 v = JNumber (sint v)"

definition enc_array :: "byte list \<Rightarrow> json" where
  "enc_array bs = JArray (map (\<lambda>b. JNumber (uint b)) bs)"

definition enc_bytes :: "byte slice \<Rightarrow> json" where
  "enc_bytes s = (case s of None \<Rightarrow> JNull | Some bs \<Rightarrow> JBytes bs)"

definition enc_bigint :: "int option \<Rightarrow> json" where
  "enc_bigint x = (case x of None \<Rightarrow> JNull | Some v \<Rightarrow> JNumber v)"

text \<open>
  \<open>Time.MarshalJSON\<close> fails when the year of the instant is outside 0..9999. Which
  instants those are is the standard library's business: \<open>year_ok\<close> is a parameter.
\<close>

definition enc_time :: "(int \<Rightarrow> bool) \<Rightarrow> int \<Rightarrow> json option" where
  "enc_time year_ok t = (if year_ok t then Some (JTime t) else None)"

text \<open>
  \<open>Header.MarshalJSON\<close>: the struct with the string field \<open>bits\<close> in front of the
  embedded alias of the header, whose own \<open>Bits\<close> field the outer one hides. Nil bits
  are written as \<open>"0"\<close>.
\<close>

definition Header_MarshalJSON :: "(int \<Rightarrow> bool) \<Rightarrow> header \<Rightarrow> json option" where
  "Header_MarshalJSON year_ok h =
     do {
       let bits = (case Bits h of Some b \<Rightarrow> big_String b | None \<Rightarrow> ''0'');
       ts \<leftarrow> enc_time year_ok (Timestamp h);
       Some (JObject
         [(''bits'', JString bits),
          (''Height'', enc_uint64 (Height h)),
          (''ParentHash'', enc_array (ParentHash h)),
          (''Lhat'', enc_int64 (Lhat h)),
          (''Timestamp'', ts),
          (''StateRoot'', enc_array (StateRoot h)),
          (''nonce'', enc_uint64 (Nonce h))])
     }"

definition enc_Transaction :: "Transaction option \<Rightarrow> json" where
  "enc_Transaction p =
     (case p of
        None \<Rightarrow> JNull
      | Some tx \<Rightarrow>
          JObject
            [(''from'', enc_bytes (tx_From tx)),
             (''to'', enc_bytes (tx_To tx)),
             (''amount'', enc_bigint (Amount tx)),
             (''nonce'', enc_uint64 (tx_Nonce tx)),
             (''gasLimit'', enc_uint64 (GasLimit tx)),
             (''gasPrice'', enc_bigint (GasPrice tx)),
             (''signature'', enc_bytes (Signature tx)),
             (''hash'', enc_bytes (tx_Hash tx))])"

text \<open>\<open>Block.Encode\<close> is \<open>json.Marshal\<close> of the block; an error of the marshaller is returned.\<close>

definition Encode :: "(int \<Rightarrow> bool) \<Rightarrow> Block \<Rightarrow> error + json" where
  "Encode year_ok b =
     (case Header_MarshalJSON year_ok (Header b) of
        None \<Rightarrow> Inl MarshalError
      | Some hj \<Rightarrow>
         (case enc_time year_ok (Time b) of
            None \<Rightarrow> Inl MarshalError
          | Some tj \<Rightarrow>
              Inr (JObject
                [(''header'', hj),
                 (''transactions'',
                    (case Transactions b of
                       None \<Rightarrow> JNull
                     | Some txs \<Rightarrow> JArray (map enc_Transaction txs))),
                 (''merkleRoot'', enc_bytes (MerkleRoot b)),
                 (''time'', tj),
                 (''receipts'', enc_bytes (Receipts b))])))"

text \<open>
  The decoders of \<open>encoding/json\<close>. \<open>null\<close> leaves the zero value; a value of the wrong
  kind or out of range is an error (\<open>None\<close>). A member that is absent leaves the zero
  value too; of members with the same name the last one counts. (Go also matches names
  without regard to case; the model matches them exactly.)
\<close>

definition member :: "(string \<times> json) list \<Rightarrow> string \<Rightarrow> json" where
  "member kvs k = (case map_of (rev kvs) k of None \<Rightarrow> JNull | Some j \<Rightarrow> j)"

definition dec_uint64 :: "json \<Rightarrow> u64 option" where
  "dec_uint64 j =
     (case j of
        JNull \<Rightarrow> Some 0
      | JNumber n \<Rightarrow> if 0 \<le> n \<and> n < 2 ^ 64 then Some (word_of_int n) else None
      | _ \<Rightarrow> None)"

definition dec_int64 :: "json \<Rightarrow> i64 option" where
  "dec_int64 j =
     (case j of
        JNull \<Rightarrow> Some 0
      | JNumber n \<Rightarrow> if - (2 ^ 63) \<le> n \<and> n < 2 ^ 63 then Some (word_of_int n) else None
      | _ \<Rightarrow> None)"

definition dec_uint8 :: "json \<Rightarrow> byte option" where
  "dec_uint8 j =
     (case j of
        JNull \<Rightarrow> Some 0
      | JNumber n \<Rightarrow> if 0 \<le> n \<and> n < 256 then Some (word_of_int n) else None
      | _ \<Rightarrow> None)"

fun dec_all :: "(json \<Rightarrow> 'a option) \<Rightarrow> json list \<Rightarrow> 'a list option" where
  "dec_all f [] = Some []"
| "dec_all f (j # js) =
     (case f j of
        None \<Rightarrow> None
      | Some x \<Rightarrow> (case dec_all f js of None \<Rightarrow> None | Some xs \<Rightarrow> Some (x # xs)))"

text \<open>A JSON array into a \<open>[32]byte\<close>: surplus elements are dropped, missing ones are zero.\<close>

definition dec_array32 :: "json \<Rightarrow> byte list option" where
  "dec_array32 j =
     (case j of
        JNull \<Rightarrow> Some (replicate 32 0)
      | JArray js \<Rightarrow>
         (case dec_all dec_uint8 (take 32 js) of
            None \<Rightarrow> None
          | Some bs \<Rightarrow> Some (bs @ replicate (32 - length bs) 0))
      | _ \<Rightarrow> None)"

definition dec_bytes :: "json \<Rightarrow> byte slice option" where
  "dec_bytes j =
     (case j of JNull \<Rightarrow> Some None | JBytes bs \<Rightarrow> Some (Some bs) | _ \<Rightarrow> None)"

definition dec_bigint :: "json \<Rightarrow> int option option" where
  "dec_bigint j =
     (case j of JNull \<Rightarrow> Some None | JNumber v \<Rightarrow> Some (Some v) | _ \<Rightarrow> None)"

text \<open>The zero \<open>time.Time\<close> is the first instant of the year 1.\<close>

definition zero_Time :: int where
  "zero_Time = - 62135596800 * 1000000000"

definition dec_time :: "json \<Rightarrow> int option" where
  "dec_time j = (case j of JNull \<Rightarrow> Some zero_Time | JTime t \<Rightarrow> Some t | _ \<Rightarrow> None)"

definition dec_string :: "json \<Rightarrow> string option" where
  "dec_string j = (case j of JNull \<Rightarrow> Some [] | JString s \<Rightarrow> Some s | _ \<Rightarrow> None)"

text \<open>
  \<open>Header.UnmarshalJSON\<close>: decode into the struct with the string field \<open>bits\<close>, then
  set \<open>Bits\<close> from that string, to 0 when it is empty. The result of \<open>SetString\<close> is
  not checked.
\<close>

definition Header_UnmarshalJSON :: "json \<Rightarrow> header option" where
  "Header_UnmarshalJSON j =
     (case j of
        JObject kvs \<Rightarrow>
          do {
            bits \<leftarrow> dec_string (member kvs ''bits'');
            height \<leftarrow> dec_uint64 (member kvs ''Height'');
            parent \<leftarrow> dec_array32 (member kvs ''ParentHash'');
            lhat \<leftarrow> dec_int64 (member kvs ''Lhat'');
            ts \<leftarrow> dec_time (member kvs ''Timestamp'');
            root \<leftarrow> dec_array32 (member kvs ''StateRoot'');
            nonce \<leftarrow> dec_uint64 (member kvs ''nonce'');
            Some \<lparr>Height = height, ParentHash = parent, Lhat = lhat,
                  Bits = (if bits \<noteq> [] then Some (fst (big_SetString bits)) else Some 0),
                  Timestamp = ts, StateRoot = root, Nonce = nonce\<rparr>
          }
      | _ \<Rightarrow> None)"

definition dec_Transaction :: "json \<Rightarrow> Transaction option option" where
  "dec_Transaction j =
     (case j of
        JNull \<Rightarrow> Some None
      | JObject kvs \<Rightarrow>
          do {
            from \<leftarrow> dec_bytes (member kvs ''from'');
            to \<leftarrow> dec_bytes (member kvs ''to'');
            amount \<leftarrow> dec_bigint (member kvs ''amount'');
            nonce \<leftarrow> dec_uint64 (member kvs ''nonce'');
            gasLimit \<leftarrow> dec_uint64 (member kvs ''gasLimit'');
            gasPrice \<leftarrow> dec_bigint (member kvs ''gasPrice'');
            signature \<leftarrow> dec_bytes (member kvs ''signature'');
            hash \<leftarrow> dec_bytes (member kvs ''hash'');
            Some (Some \<lparr>tx_From = from, tx_To = to, Amount = amount, tx_Nonce = nonce,
                        GasLimit = gasLimit, GasPrice = gasPrice, Signature = signature,
                        tx_Hash = hash\<rparr>)
          }
      | _ \<Rightarrow> None)"

definition dec_Transactions :: "json \<Rightarrow> Transaction option slice option" where
  "dec_Transactions j =
     (case j of
        JNull \<Rightarrow> Some None
      | JArray js \<Rightarrow> (case dec_all dec_Transaction js of None \<Rightarrow> None | Some txs \<Rightarrow> Some (Some txs))
      | _ \<Rightarrow> None)"

text \<open>
  \<open>DecodeBlock\<close> is \<open>json.Unmarshal\<close> into a fresh block. A header member that is
  absent or \<open>null\<close> leaves the zero header, with nil bits.
\<close>

definition zero_header :: header where
  "zero_header = \<lparr>Height = 0, ParentHash = replicate 32 0, Lhat = 0, Bits = None,
                   Timestamp = zero_Time, StateRoot = replicate 32 0, Nonce = 0\<rparr>"

definition DecodeBlock :: "json \<Rightarrow> error + Block" where
  "DecodeBlock j =
     (case (case j of
              JObject kvs \<Rightarrow>
                do {
                  hdr \<leftarrow> (case member kvs ''header'' of
                            JNull \<Rightarrow> Some zero_header
                          | hj \<Rightarrow> Header_UnmarshalJSON hj);
                  txs \<leftarrow> dec_Transactions (member kvs ''transactions'');
                  root \<leftarrow> dec_bytes (member kvs ''merkleRoot'');
                  tm \<leftarrow> dec_time (member kvs ''time'');
                  receipts \<leftarrow> dec_bytes (member kvs ''receipts'');
                  Some \<lparr>Header = hdr, Transactions = txs, MerkleRoot = root, Time = tm,
                        Receipts = receipts\<rparr>
                }
            | _ \<Rightarrow> None) of
        None \<Rightarrow> Inl MalformedBlock
      | Some b \<Rightarrow> Inr b)"



text \<open>
  The instants of the years 0 to 9999 in UTC, in nanoseconds since the Unix epoch, for
  use where a concrete \<open>year_ok\<close> is needed.
\<close>

definition utc_year_ok :: "int \<Rightarrow> bool" where
  "utc_year_ok t \<longleftrightarrow> - 62167219200 * 1000000000 \<le> t \<and> t < 253402300800 * 1000000000"

text \<open>
  The block of the unit test \<open>TestBlockBitsRoundTrip\<close> (with a fixed time), and the
  same block with nil bits.
\<close>

definition test_header :: header where
  "test_header = \<lparr>Height = 42, ParentHash = [1, 2, 3] @ replicate 29 0, Lhat = 123,
                   Bits = Some 987654321, Timestamp = 1700000000000000000,
                   StateRoot = replicate 32 0, Nonce = 12345\<rparr>"

definition test_block :: Block where
  "test_block = \<lparr>Header = test_header, Transactions = None, MerkleRoot = None,
                  Time = 1700000000000000000, Receipts = None\<rparr>"


section \<open>Quiz generation (package dataset, \<open>ProceduralQuiz\<close>)\<close>

text \<open>
  The generator of \<open>math/rand\<close> belongs to the standard library and enters as two
  parameters: \<open>NewSource\<close> makes the generator state from a seed, and \<open>accepted\<close> gives,
  for a state and a bound \<open>n\<close>, the 31-bit draw that \<open>Int31n(n)\<close> settles on (after the
  draws it rejects) together with the state afterwards. \<open>Intn(n)\<close>, for the small positive
  bounds used here, is that draw modulo \<open>n\<close>.
\<close>

definition Intn :: "('r \<Rightarrow> nat \<Rightarrow> nat \<times> 'r) \<Rightarrow> 'r \<Rightarrow> nat \<Rightarrow> nat \<times> 'r" where
  "Intn accepted rng n = (let (v, rng') = accepted rng n in (v mod n, rng'))"

text \<open>\<open>fmt.Sprintf("%d", n)\<close> for a number that is not negative.\<close>

abbreviation fmt_d :: "nat \<Rightarrow> string" where
  "fmt_d \<equiv> nat_decimal"

definition items :: "string list" where
  "items = [''apple'', ''banana'', ''cherry'', ''date'', ''elderberry'']"

text \<open>The multiplication sign of the second template is the two bytes of its UTF-8 form.\<close>

definition times_sign :: string where
  "times_sign = [char_of (195 :: nat), char_of (151 :: nat)]"

text \<open>
  One pass of the loop body: question \<open>i\<close>, from a generator seeded with
  \<open>seed + int64(i * 1000) + int64(nonce % 10000)\<close> (64-bit wrap-around).
\<close>

definition question ::
  "(i64 \<Rightarrow> 'r) \<Rightarrow> ('r \<Rightarrow> nat \<Rightarrow> nat \<times> 'r) \<Rightarrow> i64 \<Rightarrow> u64 \<Rightarrow> nat \<Rightarrow> string" where
  "question NewSource accepted seed nonce i =
     (let questionSeed = seed + of_nat (i * 1000) + nonce mod 10000;
          qRng = NewSource questionSeed;
          (questionType, qRng) = Intn accepted qRng 4
      in if questionType = 0 then
           (let (x, qRng) = Intn accepted qRng 1000;
                (y, qRng) = Intn accepted qRng 1000
            in ''What is '' @ fmt_d (1 + x) @ '' + '' @ fmt_d (1 + y) @ ''?'')
         else if questionType = 1 then
           (let (x, qRng) = Intn accepted qRng 50;
                (y, qRng) = Intn accepted qRng 50
            in ''What is '' @ fmt_d (1 + x) @ '' '' @ times_sign @ '' '' @ fmt_d (1 + y) @ ''?'')
         else if questionType = 2 then
           (let (start, qRng) = Intn accepted qRng 10;
                (step, qRng) = Intn accepted qRng 5;
                start = 1 + start;
                step = 1 + step
            in ''Complete the pattern: '' @ fmt_d start @ '', '' @ fmt_d (start + step)
                 @ '', '' @ fmt_d (start + 2 * step) @ '', ?'')
         else
           (let (idx, qRng) = Intn accepted qRng (length items)
            in ''What fruit comes after '' @ items ! idx @ '' in alphabetical order?''))"

definition ProceduralQuiz ::
  "(i64 \<Rightarrow> 'r) \<Rightarrow> ('r \<Rightarrow> nat \<Rightarrow> nat \<times> 'r) \<Rightarrow> u64 \<Rightarrow> u64 \<Rightarrow> string list" where
  "ProceduralQuiz NewSource accepted blockHeight nonce =
     (let seed = blockHeight + nonce;
          rng = NewSource seed;
          (r, rng) = Intn accepted rng 3;
          numQuestions = 3 + r
      in map (question NewSource accepted seed nonce) [0..<numQuestions])"

section \<open>Block validation (package validator, \<open>VerifyBlock\<close>; core/tx.go)\<close>

text \<open>
  What the validator takes from outside the repository: the model loader and the
  inference call of the LLM (\<open>None\<close> for an error), SHA-256, the generator of the quiz,
  Keccak-256 of the JSON text of a document, and the recovery of the sender address from a
  hash and a signature (\<open>crypto.SigToPub\<close> followed by \<open>crypto.PubkeyToAddress\<close>).
\<close>

record 'r env =
  NewLLM_ok :: bool
  Infer :: "string \<Rightarrow> int \<Rightarrow> string option"
  sha256_Sum256 :: "string \<Rightarrow> byte list"
  NewSource :: "i64 \<Rightarrow> 'r"
  accepted :: "'r \<Rightarrow> nat \<Rightarrow> nat \<times> 'r"
  Keccak256_json :: "json \<Rightarrow> byte list"
  recover_sender :: "byte list \<Rightarrow> byte list \<Rightarrow> byte list option"

text \<open>\<open>Transaction.CalculateHash\<close>: Keccak-256 of the JSON of six of the fields.\<close>

definition CalculateHash :: "'r env \<Rightarrow> Transaction \<Rightarrow> byte list" where
  "CalculateHash e tx =
     Keccak256_json e (JObject
       [(''from'', enc_bytes (tx_From tx)),
        (''to'', enc_bytes (tx_To tx)),
        (''amount'', enc_bigint (Amount tx)),
        (''nonce'', enc_uint64 (tx_Nonce tx)),
        (''gasLimit'', enc_uint64 (GasLimit tx)),
        (''gasPrice'', enc_bigint (GasPrice tx))])"

text \<open>
  \<open>Transaction.Verify\<close>, \<open>None\<close> for success. A coinbase transaction (empty \<open>From\<close>)
  needs no signature.
\<close>

definition Verify :: "'r env \<Rightarrow> Transaction \<Rightarrow> error option" where
  "Verify e tx =
     (if len (tx_From tx) = 0 then None
      else if len (Signature tx) = 0 then Some NoSignature
      else
        (case recover_sender e (CalculateHash e tx) (elems (Signature tx)) of
           None \<Rightarrow> Some InvalidSignature
         | Some sender \<Rightarrow>
             if sender \<noteq> elems (tx_From tx) then Some SenderMismatch else None))"

text \<open>
  The loop over the transactions of \<open>VerifyBlock\<close>, from index \<open>i\<close> on: the first
  failure ends it. Calling \<open>Verify\<close> through a nil pointer panics.
\<close>

fun verify_transactions :: "'r env \<Rightarrow> nat \<Rightarrow> Transaction option list \<Rightarrow> error option" where
  "verify_transactions e i [] = None"
| "verify_transactions e i (p # ps) =
     (case p of
        None \<Rightarrow> Some NilDereference
      | Some tx \<Rightarrow>
         (case Verify e tx of
            Some err \<Rightarrow> Some (TxVerifyFailed i err)
          | None \<Rightarrow> verify_transactions e (Suc i) ps))"

text \<open>\<open>binary.LittleEndian.Uint64\<close> of a slice of (at least) eight bytes.\<close>

definition Uint64 :: "byte list \<Rightarrow> u64" where
  "Uint64 b = foldr (\<lambda>x acc. ucast x OR push_bit 8 acc) (take 8 b) 0"

text \<open>The prompt: every quiz followed by a newline.\<close>

definition prompt_of :: "string list \<Rightarrow> string" where
  "prompt_of quizzes = foldl (\<lambda>prompt quiz. prompt @ quiz @ [CHR 0x0A]) [] quizzes"

text \<open>
  The loss replayed for a block: the quiz from height and nonce, the inference seeded
  with the height, and the first eight bytes of the SHA-256 of the output read as a
  little-endian signed 64-bit integer. \<open>None\<close> when the inference fails.
\<close>

definition replay_loss :: "'r env \<Rightarrow> Block \<Rightarrow> i64 option" where
  "replay_loss e b =
     (let quizzes = ProceduralQuiz (NewSource e) (accepted e) (Height (Header b)) (Nonce (Header b));
          prompt = prompt_of quizzes;
          heightBytes = PutUint64 (Height (Header b));
          llmSeed = sint (Uint64 heightBytes)
      in case Infer e prompt llmSeed of
           None \<Rightarrow> None
         | Some output \<Rightarrow> Some (Uint64 (take 8 (sha256_Sum256 e output))))"

text \<open>\<open>VerifyBlock\<close>, \<open>None\<close> for success.\<close>

definition VerifyBlock :: "'r env \<Rightarrow> Block \<Rightarrow> error option" where
  "VerifyBlock e b =
     (if \<not> NewLLM_ok e then Some LLMLoadFailed
      else
        (case (if len (Transactions b) > 0
               then verify_transactions e 0 (elems (Transactions b)) else None) of
           Some err \<Rightarrow> Some err
         | None \<Rightarrow>
            (let quizzes = ProceduralQuiz (NewSource e) (accepted e)
                             (Height (Header b)) (Nonce (Header b));
                 prompt = prompt_of quizzes
             in if prompt = [] then Some EmptyPrompt
                else
                  (case replay_loss e b of
                     None \<Rightarrow> Some InferenceFailed
                   | Some lossInt \<Rightarrow>
                       if lossInt \<noteq> Lhat (Header b) then Some InvalidLoss
                       else
                         (case Bits (Header b) of
                            None \<Rightarrow> Some NilDereference
                          | Some bits \<Rightarrow>
                              if sint lossInt > sint (Int64 bits) then Some TargetNotMet
                              else None)))))"

section \<open>A test environment\<close>

text \<open>
  Stand-ins for the external functions, for evaluating the validator on concrete blocks:
  an inference that always answers, a digest whose first eight bytes read 5, a generator
  that always draws 0, and a signature scheme in which the signature is the address of
  the signer.
\<close>

definition test_env :: "unit env" where
  "test_env = \<lparr>NewLLM_ok = True,
               Infer = (\<lambda>prompt seed. Some ''answer''),
               sha256_Sum256 = (\<lambda>s. [5, 0, 0, 0, 0, 0, 0, 0] @ replicate 24 0),
               NewSource = (\<lambda>seed. ()),
               accepted = (\<lambda>rng n. (0, ())),
               Keccak256_json = (\<lambda>j. replicate 32 0),
               recover_sender = (\<lambda>hash sig. Some sig)\<rparr>"

definition coinbase_tx :: Transaction where
  "coinbase_tx = \<lparr>tx_From = Some [], tx_To = Some [9], Amount = Some 50, tx_Nonce = 0,
                   GasLimit = 0, GasPrice = Some 0, Signature = None, tx_Hash = None\<rparr>"

definition signed_tx :: Transaction where
  "signed_tx = \<lparr>tx_From = Some [1], tx_To = Some [9], Amount = Some 3, tx_Nonce = 0,
                 GasLimit = 21000, GasPrice = Some 1, Signature = Some [1], tx_Hash = None\<rparr>"

definition forged_tx :: Transaction where
  "forged_tx = signed_tx\<lparr>Signature := Some [2]\<rparr>"

definition forged_block :: Block where
  "forged_block = test_block\<lparr>Transactions := Some [Some coinbase_tx, Some forged_tx]\<rparr>"

definition wide_bits_block :: Block where
  "wide_bits_block =
     test_block\<lparr>Header := test_header\<lparr>Lhat := 5, Bits := Some (2 ^ 64)\<rparr>,
                Transactions := Some [Some coinbase_tx, Some signed_tx]\<rparr>"

definition wrong_loss_block :: Block where
  "wrong_loss_block = test_block\<lparr>Header := test_header\<lparr>Lhat := 6, Bits := Some (- 1)\<rparr>\<rparr>"

section \<open>The chain manager (package core, \<open>Chain\<close>)\<close>

text \<open>
  What the chain takes from its surroundings: the digest of the block hash, the instants
  that the JSON encoder accepts, the configured prune depth, and whether the callback
  \<open>RequestBlockByHash\<close> has been set.
\<close>

record chain_env =
  sha3 :: "byte list \<Rightarrow> byte list"
  time_ok :: "int \<Rightarrow> bool"
  PruneDepth :: u64
  has_RequestBlockByHash :: bool

text \<open>
  The state of a \<open>Chain\<close>. The Go maps are association lists, looked up with
  \<open>map_of\<close> and written with \<open>AList.update\<close>; a \<open>range\<close> loop over a map visits the
  entries in the order of the list, which stands for whatever order the run time picks.
  \<open>store\<close> and \<open>store_tip\<close> are the keys \<open>block:<height>\<close> and \<open>chain:tip\<close> of the
  key-value store. A subscriber channel of capacity one either holds a notification or
  does not. \<open>requested\<close> lists the parent hashes for which a \<open>RequestBlockByHash\<close>
  goroutine has been started. \<open>orphanImportInProgress\<close> is the process-wide guard.
  Blocks are held by value.
\<close>

record Chain =
  blocks :: "(u64 \<times> Block) list"
  blockHashIndex :: "(byte list \<times> Block) list"
  head :: u64
  store :: "(u64 \<times> json) list"
  store_tip :: "u64 option"
  subscribers :: "bool list"
  OrphanPool :: "(byte list \<times> Block list) list"
  sideBranches :: "(byte list \<times> Block list) list"
  requested :: "byte list list"
  orphanImportInProgress :: bool

definition hash_of :: "chain_env \<Rightarrow> Block \<Rightarrow> byte list" where
  "hash_of env b = Block_Hash (sha3 env) b"

text \<open>\<open>BadgerStore\<close>: a block that cannot be encoded is not stored, one that cannot be
  decoded is not found; the callers only log these errors.\<close>

definition PutBlock :: "chain_env \<Rightarrow> Chain \<Rightarrow> u64 \<Rightarrow> Block \<Rightarrow> Chain" where
  "PutBlock env c height block =
     (case Encode (time_ok env) block of
        Inl err \<Rightarrow> c
      | Inr val \<Rightarrow> c\<lparr>store := AList.update height val (store c), store_tip := Some height\<rparr>)"

definition GetBlock :: "Chain \<Rightarrow> u64 \<Rightarrow> Block option" where
  "GetBlock c height =
     (case map_of (store c) height of
        None \<Rightarrow> None
      | Some val \<Rightarrow> (case DecodeBlock val of Inl err \<Rightarrow> None | Inr block \<Rightarrow> Some block))"

definition PruneBlocks :: "Chain \<Rightarrow> u64 \<Rightarrow> u64 \<Rightarrow> Chain" where
  "PruneBlocks c keepN tip =
     (let minKeep = (if tip \<ge> keepN then tip - keepN + 1 else 0)
      in c\<lparr>store := filter (\<lambda>(h, val). \<not> h < minKeep) (store c)\<rparr>)"

text \<open>
  \<open>HeaderByHeight\<close> repairs nil or zero bits of the block it returns (in place) and
  caches a block it had to load from the store, so it returns the new state too.
\<close>

definition repair_bits :: "Block \<Rightarrow> Block" where
  "repair_bits blk =
     (if Bits (Header blk) = None \<or> Bits (Header blk) = Some 0
      then blk\<lparr>Header := (Header blk)\<lparr>Bits := Some 1000\<rparr>\<rparr>
      else blk)"

definition HeaderByHeight :: "Chain \<Rightarrow> u64 \<Rightarrow> header option \<times> Chain" where
  "HeaderByHeight c height =
     (case map_of (blocks c) height of
        Some blk \<Rightarrow>
          (let blk = repair_bits blk
           in (Some (Header blk), c\<lparr>blocks := AList.update height blk (blocks c)\<rparr>))
      | None \<Rightarrow>
         (case GetBlock c height of
            Some blk \<Rightarrow>
              (let blk = repair_bits blk
               in (Some (Header blk), c\<lparr>blocks := AList.update height blk (blocks c)\<rparr>))
          | None \<Rightarrow> (None, c)))"

definition notifyHeadChange :: "Chain \<Rightarrow> Chain" where
  "notifyHeadChange c = c\<lparr>subscribers := map (\<lambda>full. True) (subscribers c)\<rparr>"

text \<open>\<open>addToSideBranch\<close> appends the block to the branch filed under its parent hash.\<close>

definition addToSideBranch :: "Chain \<Rightarrow> Block \<Rightarrow> Chain" where
  "addToSideBranch c block =
     (let branch = (case map_of (sideBranches c) (ParentHash (Header block)) of
                      None \<Rightarrow> [] | Some br \<Rightarrow> br)
      in c\<lparr>sideBranches :=
             AList.update (ParentHash (Header block)) (branch @ [block]) (sideBranches c)\<rparr>)"

text \<open>
  \<open>addToOrphanPool\<close> appends the block to the orphans waiting for its parent and, when
  the callback is set, starts a goroutine that requests the parent.
\<close>

definition addToOrphanPool :: "chain_env \<Rightarrow> Chain \<Rightarrow> Block \<Rightarrow> Chain" where
  "addToOrphanPool env c block =
     (let waiting = (case map_of (OrphanPool c) (ParentHash (Header block)) of
                       None \<Rightarrow> [] | Some bs \<Rightarrow> bs);
          c = c\<lparr>OrphanPool :=
                 AList.update (ParentHash (Header block)) (waiting @ [block]) (OrphanPool c)\<rparr>
      in if has_RequestBlockByHash env
         then c\<lparr>requested := requested c @ [ParentHash (Header block)]\<rparr>
         else c)"

text \<open>
  \<open>reorgToBranch\<close>: the head goes back to the height below the first block of the
  branch, then every block of the branch is stored at its height and becomes the head.
  Reading \<open>branch[0]\<close> of an empty branch panics.
\<close>

definition reorg_apply :: "chain_env \<Rightarrow> Chain \<Rightarrow> Block \<Rightarrow> Chain" where
  "reorg_apply env c blk =
     PutBlock env
       (c\<lparr>blocks := AList.update (Height (Header blk)) blk (blocks c),
          head := Height (Header blk)\<rparr>)
       (Height (Header blk)) blk"

datatype panic = IndexOutOfRange

definition reorgToBranch :: "chain_env \<Rightarrow> Chain \<Rightarrow> Block list \<Rightarrow> panic + Chain" where
  "reorgToBranch env c branch =
     (case branch of
        [] \<Rightarrow> Inl IndexOutOfRange
      | first # rest \<Rightarrow>
          (let forkHeight = Height (Header first) - 1;
               c = c\<lparr>head := forkHeight\<rparr>
           in Inr (foldl (reorg_apply env) c branch)))"

text \<open>
  \<open>checkReorg\<close> visits the side branches; a branch that is not empty and whose last
  block is higher than the head of that moment is reorganised to, and its entry deleted.
  (The panic of \<open>reorgToBranch\<close> cannot happen there, the branch is not empty.)
\<close>

definition checkReorg_visit :: "chain_env \<Rightarrow> Chain \<Rightarrow> byte list \<times> Block list \<Rightarrow> Chain" where
  "checkReorg_visit env c entry =
     (let (parentHash, branch) = entry
      in if branch = [] then c
         else
           (let branchTip = last branch
            in if Height (Header branchTip) > head c
               then (case reorgToBranch env c branch of
                       Inr c \<Rightarrow> c\<lparr>sideBranches := AList.delete parentHash (sideBranches c)\<rparr>
                     | Inl p \<Rightarrow> c)
               else c))"

definition checkReorg :: "chain_env \<Rightarrow> Chain \<Rightarrow> Chain" where
  "checkReorg env c = foldl (checkReorg_visit env) c (sideBranches c)"

text \<open>
  The body of \<open>importBlockInternal\<close> up to the point where the lock is given up for the
  promotion of orphans. The result is the error (\<open>None\<close> for success), whether the
  promotion of orphans follows, and the new state.
\<close>

definition store_block :: "chain_env \<Rightarrow> Chain \<Rightarrow> Block \<Rightarrow> Chain" where
  "store_block env c block =
     (let c = c\<lparr>blocks := AList.update (Height (Header block)) block (blocks c),
                blockHashIndex := AList.update (hash_of env block) block (blockHashIndex c),
                head := Height (Header block)\<rparr>;
          c = PutBlock env c (Height (Header block)) block;
          c = (if PruneDepth env > 0 then PruneBlocks c (PruneDepth env) (head c) else c);
          c = notifyHeadChange c
      in checkReorg env c)"

definition import_locked :: "chain_env \<Rightarrow> Chain \<Rightarrow> Block \<Rightarrow> error option \<times> bool \<times> Chain" where
  "import_locked env c block =
     (case map_of (blocks c) (Height (Header block)) of
        Some existing \<Rightarrow>
          if hash_of env existing \<noteq> hash_of env block then
            (case map_of (blocks c) (head c) of
               None \<Rightarrow> (Some NilDereference, False, c)
             | Some headBlock \<Rightarrow>
                 if ParentHash (Header block) \<noteq> hash_of env headBlock
                 then (None, False, checkReorg env (addToSideBranch c block))
                 else (Some Duplicate, False, c))
          else (Some Duplicate, False, c)
      | None \<Rightarrow>
         (case find (\<lambda>(h, b). hash_of env b = ParentHash (Header block)) (blocks c) of
            None \<Rightarrow> (Some OrphanQueued, False, addToOrphanPool env c block)
          | Some (h, parent) \<Rightarrow>
              if Height (Header parent) \<noteq> Height (Header block) - 1
              then (Some SideBranched, False, addToSideBranch c block)
              else if ParentHash (Header block) \<noteq> hash_of env parent
              then (Some SideBranched, False, addToSideBranch c block)
              else if Hash (sha3 env) (Some (Header block)) \<noteq> hash_of env block
              then (Some HashMismatch, False, c)
              else if Height (Header block) mod of_nat RetargetInterval = 0
                      \<and> Height (Header block) > 0
              then
                (let reader = (\<lambda>height. fst (HeaderByHeight c height));
                     (newTarget, err) = Adjust reader (Some (Header block));
                     c = (if Bits (Header block) = None then c
                          else snd (HeaderByHeight c
                                 (Height (Header block) - of_nat RetargetInterval + 1)))
                 in case err of
                      Some e \<Rightarrow> (Some (DifficultyError e), False, c)
                    | None \<Rightarrow>
                        (None, True,
                         store_block env c
                           (block\<lparr>Header := (Header block)\<lparr>Bits := Some newTarget\<rparr>\<rparr>)))
              else
                (None, True,
                 store_block env c
                   (block\<lparr>Header := (Header block)\<lparr>Bits := Bits (Header parent)\<rparr>\<rparr>))))"

text \<open>
  \<open>tryImportOrphans\<close>. While it runs the guard is set, so the \<open>ImportBlock\<close> it calls
  for an orphan does not promote orphans in turn: that call is \<open>import_locked\<close> alone.
\<close>

definition classify_orphan :: "Chain \<Rightarrow> Block \<Rightarrow> Block list \<times> Block list \<Rightarrow> Block list \<times> Block list" where
  "classify_orphan c orphan queues =
     (let (toImport, toSideBranch) = queues
      in case map_of (blockHashIndex c) (ParentHash (Header orphan)) of
           None \<Rightarrow> (toImport, toSideBranch)
         | Some parent \<Rightarrow>
             if Height (Header parent) = Height (Header orphan) - 1
             then (toImport @ [orphan], toSideBranch)
             else (toImport, toSideBranch @ [orphan]))"

definition tryImportOrphans :: "chain_env \<Rightarrow> Chain \<Rightarrow> byte list \<Rightarrow> Chain" where
  "tryImportOrphans env c parentHash =
     (if orphanImportInProgress c then c
      else
        (let c = c\<lparr>orphanImportInProgress := True\<rparr>;
             found = map_of (OrphanPool c) parentHash;
             c = (case found of
                    None \<Rightarrow> c
                  | Some orphans \<Rightarrow> c\<lparr>OrphanPool := AList.delete parentHash (OrphanPool c)\<rparr>);
             (toImport, toSideBranch) =
                (case found of
                   None \<Rightarrow> ([], [])
                 | Some orphans \<Rightarrow> foldl (\<lambda>queues orphan. classify_orphan c orphan queues) ([], []) orphans);
             c = foldl (\<lambda>c orphan. snd (snd (import_locked env c orphan))) c toImport;
             c = foldl addToSideBranch c toSideBranch
         in c\<lparr>orphanImportInProgress := False\<rparr>))"

text \<open>\<open>ImportBlock\<close>: the result of the import and the state it leaves.\<close>

definition ImportBlock :: "chain_env \<Rightarrow> Chain \<Rightarrow> Block \<Rightarrow> error option \<times> Chain" where
  "ImportBlock env c block =
     (let (err, promote, c) = import_locked env c block
      in if promote
         then (err, tryImportOrphans env c (hash_of env block))
         else (err, c))"


section \<open>A test chain\<close>

text \<open>
  A digest that keeps the height and the nonce of the hashed buffer, blocks made from the
  block of the unit test, a chain holding a genesis block only, the chain after two blocks
  of heights 6 and 8 that name the genesis block as their parent have been imported, and
  the chain after the import of a block of height 1 on top of that.
\<close>

definition test_digest :: "byte list \<Rightarrow> byte list" where
  "test_digest buf = take 8 buf @ drop 40 buf @ replicate 16 0"

definition test_hash :: "u64 \<Rightarrow> u64 \<Rightarrow> byte list" where
  "test_hash h n = PutUint64 h @ PutUint64 n @ replicate 16 0"

definition test_chain_env :: chain_env where
  "test_chain_env = \<lparr>sha3 = test_digest, time_ok = utc_year_ok, PruneDepth = 0,
                      has_RequestBlockByHash = True\<rparr>"

definition block_at :: "u64 \<Rightarrow> u64 \<Rightarrow> byte list \<Rightarrow> Block" where
  "block_at h n parent =
     test_block\<lparr>Header := test_header\<lparr>Height := h, Nonce := n, ParentHash := parent\<rparr>\<rparr>"

definition genesis :: Block where
  "genesis = block_at 0 0 (replicate 32 0)"

definition genesis_chain :: Chain where
  "genesis_chain = \<lparr>blocks = [(0, genesis)], blockHashIndex = [(test_hash 0 0, genesis)],
                     head = 0, store = [], store_tip = None, subscribers = [],
                     OrphanPool = [], sideBranches = [], requested = [],
                     orphanImportInProgress = False\<rparr>"

definition forked_chain :: Chain where
  "forked_chain =
     snd (ImportBlock test_chain_env
            (snd (ImportBlock test_chain_env genesis_chain (block_at 6 1 (test_hash 0 0))))
            (block_at 8 1 (test_hash 0 0)))"

definition reorged_chain :: Chain where
  "reorged_chain = snd (ImportBlock test_chain_env forked_chain (block_at 1 1 (test_hash 0 0)))"

section \<open>The block hash\<close>

lemma length_PutUint64: "length (PutUint64 v) = 8"
  by (simp add: PutUint64_def)

text \<open>The eight bytes are the base-256 digits of the value, least significant first.\<close>

lemma PutUint64_nth:
  "i < 8 \<Longrightarrow> unat (PutUint64 v ! i) = unat v div 256 ^ i mod 256"
proof -
  assume i: "i < 8"
  have "unat (ucast (drop_bit (8 * i) v) :: byte) = unat (drop_bit (8 * i) v) mod 2 ^ 8"
    by (simp add: unsigned_ucast_eq take_bit_eq_mod)
  also have "unat (drop_bit (8 * i) v) = unat v div 2 ^ (8 * i)"
    by (subst unat_drop_bit_eq) (simp add: drop_bit_eq_div)
  also have "(2::nat) ^ (8 * i) = 256 ^ i"
    by (simp add: power_mult)
  finally show ?thesis using i by (simp add: PutUint64_def)
qed

lemma copy_into_middle:
  assumes "length src = length b"
  shows "copy_into (a @ b @ c) (length a) (length a + length b) src = a @ src @ c"
  using assms by (simp add: copy_into_def)

lemma Hash_buffer:
  assumes "length (ParentHash h) = 32"
  shows "Hash f (Some h) = f (PutUint64 (Height h) @ ParentHash h @ PutUint64 (Nonce h))"
proof -
  let ?z8 = "replicate 8 (0::byte)" and ?z32 = "replicate 32 (0::byte)"
  let ?H = "PutUint64 (Height h)" and ?N = "PutUint64 (Nonce h)"
  have b0: "replicate 48 (0::byte) = [] @ ?z8 @ (?z32 @ ?z8)"
    by (simp flip: replicate_add)
  have "copy_into (replicate 48 0) 0 8 ?H = [] @ ?H @ (?z32 @ ?z8)"
    unfolding b0 using copy_into_middle [of ?H ?z8 "[]" "?z32 @ ?z8"]
    by (simp add: length_PutUint64)
  then have b1: "copy_into (replicate 48 0) 0 8 ?H = ?H @ ?z32 @ ?z8" by simp
  have b2: "copy_into (?H @ ?z32 @ ?z8) 8 40 (ParentHash h) = ?H @ ParentHash h @ ?z8"
    using copy_into_middle [of "ParentHash h" ?z32 ?H ?z8] assms
    by (simp add: length_PutUint64)
  have "copy_into ((?H @ ParentHash h) @ ?z8 @ []) 40 48 ?N = (?H @ ParentHash h) @ ?N @ []"
    using copy_into_middle [of ?N ?z8 "?H @ ParentHash h" "[]"] assms
    by (simp add: length_PutUint64)
  then have b3: "copy_into (?H @ ParentHash h @ ?z8) 40 48 ?N = ?H @ ParentHash h @ ?N"
    by simp
  show ?thesis by (simp add: Hash_def Let_def b1 b2 b3)
qed

text \<open>
  C1. For every non-nil header with a 32-byte parent hash, the hash is SHA3-256 of the
  48 bytes made of the little-endian height (8 bytes), the parent hash (32 bytes) and the
  little-endian nonce (8 bytes); hence two headers that agree on height, parent hash and
  nonce have the same hash, whatever their loss claim, bits, timestamp and state root.
\<close>

theorem Hash_preimage:
  assumes "length (ParentHash h) = 32"
  shows "Hash sha3_Sum256 (Some h)
           = sha3_Sum256 (PutUint64 (Height h) @ ParentHash h @ PutUint64 (Nonce h))
         \<and> length (PutUint64 (Height h) @ ParentHash h @ PutUint64 (Nonce h)) = 48
         \<and> (\<forall>i < 8. unat (PutUint64 (Height h) ! i) = unat (Height h) div 256 ^ i mod 256
                   \<and> unat (PutUint64 (Nonce h) ! i) = unat (Nonce h) div 256 ^ i mod 256)
         \<and> (\<forall>h'. Height h' = Height h \<and> ParentHash h' = ParentHash h \<and> Nonce h' = Nonce h
               \<longrightarrow> Hash sha3_Sum256 (Some h') = Hash sha3_Sum256 (Some h))"
proof (intro conjI allI impI)
  show "Hash sha3_Sum256 (Some h)
          = sha3_Sum256 (PutUint64 (Height h) @ ParentHash h @ PutUint64 (Nonce h))"
    using assms by (rule Hash_buffer)
  show "length (PutUint64 (Height h) @ ParentHash h @ PutUint64 (Nonce h)) = 48"
    using assms by (simp add: length_PutUint64)
next
  fix i :: nat assume "i < 8"
  then show "unat (PutUint64 (Height h) ! i) = unat (Height h) div 256 ^ i mod 256"
    and "unat (PutUint64 (Nonce h) ! i) = unat (Nonce h) div 256 ^ i mod 256"
    by (rule PutUint64_nth)+
next
  fix h' :: header
  assume eq: "Height h' = Height h \<and> ParentHash h' = ParentHash h \<and> Nonce h' = Nonce h"
  then have "length (ParentHash h') = 32" using assms by simp
  then have "Hash sha3_Sum256 (Some h')
               = sha3_Sum256 (PutUint64 (Height h') @ ParentHash h' @ PutUint64 (Nonce h'))"
    by (rule Hash_buffer)
  with eq show "Hash sha3_Sum256 (Some h') = Hash sha3_Sum256 (Some h)"
    using Hash_buffer [OF assms, of sha3_Sum256] by simp
qed

theorem Hash_preimage_witness:
  "length (ParentHash \<lparr>Height = 42, ParentHash = replicate 32 7, Lhat = 3, Bits = Some (- 5),
             Timestamp = 0, StateRoot = replicate 32 0, Nonce = 9\<rparr>) = 32
   \<and> Hash (take 32)
         (Some \<lparr>Height = 42, ParentHash = replicate 32 7, Lhat = 3, Bits = Some (- 5),
                Timestamp = 0, StateRoot = replicate 32 0, Nonce = 9\<rparr>)
       = take 32 (PutUint64 42 @ replicate 32 7 @ PutUint64 9)
   \<and> Hash (take 32)
         (Some \<lparr>Height = 42, ParentHash = replicate 32 7, Lhat = 8, Bits = None,
                Timestamp = 100, StateRoot = replicate 32 1, Nonce = 9\<rparr>)
       = Hash (take 32)
           (Some \<lparr>Height = 42, ParentHash = replicate 32 7, Lhat = 3, Bits = Some (- 5),
                  Timestamp = 0, StateRoot = replicate 32 0, Nonce = 9\<rparr>)"
  using Hash_preimage [of "\<lparr>Height = 42, ParentHash = replicate 32 7, Lhat = 3,
           Bits = Some (- 5), Timestamp = 0, StateRoot = replicate 32 0, Nonce = 9\<rparr>" "take 32"]
  by simp

section \<open>The subsidy schedule\<close>

lemma halvings_unat: "unat (h div HalvingBlocks) = unat h div 210000"
  by (simp add: HalvingBlocks_def unat_div)

lemma fifty_shift_zero: "6 \<le> k \<Longrightarrow> (50::int) div 2 ^ k = 0"
proof -
  assume "6 \<le> k"
  then have "(2::int) ^ 6 \<le> 2 ^ k" by (intro power_increasing) simp_all
  then have "(50::int) < 2 ^ k" by simp
  then show ?thesis by simp
qed

text \<open>
  C10. For every height \<open>h\<close>, \<open>GetSubsidy h\<close> is the floor of 50 divided by 2 to the
  power \<open>h div 210000\<close>; in particular it is 0 for every height from 6 * 210000 = 1260000 on,
  long before the cutoff at 64 halvings.
\<close>

theorem GetSubsidy_floor:
  "GetSubsidy h = 50 div 2 ^ (unat h div 210000)
   \<and> (1260000 \<le> unat h \<longrightarrow> GetSubsidy h = 0)"
proof -
  have eq: "GetSubsidy h = 50 div 2 ^ (unat h div 210000)"
  proof (cases "h div HalvingBlocks \<ge> 64")
    case True
    then have "64 \<le> unat (h div HalvingBlocks)"
      by (simp add: word_le_nat_alt)
    then have "6 \<le> unat h div 210000" by (simp add: halvings_unat)
    then have "(50::int) div 2 ^ (unat h div 210000) = 0" by (rule fifty_shift_zero)
    with True show ?thesis by (simp add: GetSubsidy_def)
  next
    case False
    then show ?thesis
      by (simp add: GetSubsidy_def Let_def InitialSubsidy_def drop_bit_eq_div halvings_unat)
  qed
  moreover have "GetSubsidy h = 0" if "1260000 \<le> unat h"
  proof -
    from that have "6 \<le> unat h div 210000" by simp
    then show ?thesis using eq by (simp add: fifty_shift_zero)
  qed
  ultimately show ?thesis by blast
qed

theorem GetSubsidy_floor_witness:
  "GetSubsidy 1260000 = 50 div 2 ^ (unat (1260000 :: u64) div 210000)
   \<and> (1260000 \<le> unat (1260000 :: u64)) \<and> GetSubsidy 1260000 = 0"
  using GetSubsidy_floor [of 1260000] by simp

section \<open>The miner's target\<close>

lemma Int64_word_of_int: "Int64 x = word_of_int x"
  by (simp add: Int64_def Let_def abs_if)

text \<open>Within the signed 64-bit range \<open>Int64\<close> is exact.\<close>

lemma sint_Int64:
  assumes "- (2 ^ 63) \<le> x" "x < 2 ^ 63"
  shows "sint (Int64 x) = x"
proof -
  have "sint (word_of_int x :: 64 word) = signed_take_bit 63 x"
    by (simp add: sint_sbintrunc')
  also have "\<dots> = x"
    using assms by (simp add: signed_take_bit_int_eq_self)
  finally show ?thesis by (simp add: Int64_word_of_int)
qed




section \<open>Difficulty retarget\<close>

lemma not_below_interval:
  "2016 \<le> unat (h :: u64) \<Longrightarrow> \<not> h < 2016"
  by (simp add: word_less_nat_alt)

lemma expected_timespan_ns: "expected_timespan = 1209600000000000"
  by (simp add: expected_timespan_def RetargetInterval_def Second_def TargetBlockSpacingSec_def)

lemma clamp_timespan_eq:
  "clamp_timespan a = max 302400000000000 (min 4838400000000000 a)"
  by (simp add: clamp_timespan_def expected_timespan_ns MaxAdjustmentFactor_def)

lemma scale_target_eq:
  "scale_target oldT a = (oldT * (a div 1000000000)) div 1209600"
  by (simp add: scale_target_def expected_timespan_ns Seconds_int64_def Second_def big_Div_def)

lemma bound_target_eq: "bound_target n = max (- (2 ^ 63)) (min (- 1) n)"
  by (simp add: bound_target_def Let_def max_def min_def)

lemma Adjust_steps:
  assumes "2016 \<le> unat (Height tip)" "Bits tip = Some b"
    and "reader (Height tip - 2016 + 1) = Some first"
  shows "Adjust reader (Some tip) =
     (bound_target (scale_target b
        (clamp_timespan (Time_Sub (Timestamp tip) (Timestamp first)))), None)"
proof -
  have i: "(of_nat RetargetInterval :: u64) = 2016"
    by (simp add: RetargetInterval_def)
  show ?thesis
    unfolding Adjust_def i
    using assms not_below_interval [OF assms(1)] by simp
qed

lemma clamped_seconds:
  "max 302400000000000 (min 4838400000000000 (Time_Sub t u)) div 1000000000
     = max 302400 (min 4838400 ((t - u) div 1000000000))"
proof -
  let ?d = "t - u"
  consider (low) "?d < 302400000000000"
    | (high) "4838400000000000 < ?d"
    | (mid) "302400000000000 \<le> ?d" "?d \<le> 4838400000000000"
    by linarith
  then show ?thesis
  proof cases
    case low
    then have "Time_Sub t u < 302400000000000"
      by (simp add: Time_Sub_def Let_def)
    moreover from low have "?d div 1000000000 \<le> 302399999999999 div 1000000000"
      by (intro zdiv_mono1) simp_all
    then have "?d div 1000000000 < 302400" by simp
    ultimately show ?thesis by simp
  next
    case high
    then have "4838400000000000 < Time_Sub t u"
      by (simp add: Time_Sub_def Let_def)
    moreover from high have "4838400000000000 div 1000000000 \<le> ?d div 1000000000"
      by (intro zdiv_mono1) simp_all
    then have "4838400 \<le> ?d div 1000000000" by simp
    ultimately show ?thesis by simp
  next
    case mid
    then have "Time_Sub t u = ?d"
      by (simp add: Time_Sub_def Let_def)
    moreover from mid have "302400000000000 div 1000000000 \<le> ?d div 1000000000"
      and "?d div 1000000000 \<le> 4838400000000000 div 1000000000"
      by (intro zdiv_mono1; simp)+
    then have "302400 \<le> ?d div 1000000000" "?d div 1000000000 \<le> 4838400" by simp_all
    ultimately show ?thesis using mid by simp
  qed
qed

lemma Adjust_closed_form:
  assumes "2016 \<le> unat (Height tip)" "Bits tip = Some b"
    and "reader (Height tip - 2016 + 1) = Some first"
  shows "Adjust reader (Some tip) =
     (max (- (2 ^ 63)) (min (- 1)
        ((b * max 302400 (min 4838400 ((Timestamp tip - Timestamp first) div 1000000000)))
          div 1209600)), None)"
proof -
  have "Adjust reader (Some tip) =
     (bound_target (scale_target b
        (clamp_timespan (Time_Sub (Timestamp tip) (Timestamp first)))), None)"
    using assms by (rule Adjust_steps)
  then show ?thesis
    by (simp only: bound_target_eq scale_target_eq clamp_timespan_eq clamped_seconds)
qed

text \<open>
  C4, as the code has it. For every tip header with non-nil bits and height at least 2016
  whose first-window header (at height tip - 2016 + 1) is present, \<open>Adjust\<close> returns
  tip.bits * clamped_span / expected_span without error, where expected_span is
  2016 * 600 seconds, clamped_span is the actual span in whole seconds clamped to
  [expected_span / 4, expected_span * 4], the division is the Euclidean one of
  \<open>big.Int.Div\<close> (it rounds toward minus infinity for the positive divisor), and the
  result is saturated to at most -1 and at least -2^63.
\<close>

theorem Adjust_retarget:
  assumes "2016 \<le> unat (Height tip)" "Bits tip = Some b"
    and "reader (Height tip - 2016 + 1) = Some first"
  shows "Adjust reader (Some tip) =
     (let expected_span = 2016 * 600;
          actual_span = (Timestamp tip - Timestamp first) div 1000000000;
          clamped_span = max (expected_span div 4) (min (expected_span * 4) actual_span);
          new_bits = (b * clamped_span) div expected_span
      in (max (- (2 ^ 63)) (min (- 1) new_bits), None))"
proof -
  have c: "(2016 * 600 :: int) = 1209600" "(1209600 :: int) div 4 = 302400"
    "(1209600 :: int) * 4 = 4838400"
    by simp_all
  show ?thesis
    using Adjust_closed_form [of tip b reader first, OF assms]
    by (simp only: Let_def c)
qed

theorem Adjust_retarget_witness:
  "2016 \<le> unat (Height \<lparr>Height = 2016, ParentHash = replicate 32 0, Lhat = 0,
        Bits = Some (- 8), Timestamp = 1209600000000000, StateRoot = replicate 32 0, Nonce = 0\<rparr>)
   \<and> Adjust (\<lambda>h. if h = 1 then Some \<lparr>Height = 1, ParentHash = replicate 32 0, Lhat = 0,
        Bits = Some (- 8), Timestamp = 604800000000000, StateRoot = replicate 32 0, Nonce = 0\<rparr> else None)
        (Some \<lparr>Height = 2016, ParentHash = replicate 32 0, Lhat = 0,
        Bits = Some (- 8), Timestamp = 1209600000000000, StateRoot = replicate 32 0, Nonce = 0\<rparr>)
      = (- 4, None)"
  using Adjust_retarget [of "\<lparr>Height = 2016, ParentHash = replicate 32 0, Lhat = 0,
        Bits = Some (- 8), Timestamp = 1209600000000000, StateRoot = replicate 32 0, Nonce = 0\<rparr>"
      "- 8"
      "\<lambda>h. if h = 1 then Some \<lparr>Height = 1, ParentHash = replicate 32 0, Lhat = 0,
        Bits = Some (- 8), Timestamp = 604800000000000, StateRoot = replicate 32 0, Nonce = 0\<rparr> else None"
      "\<lparr>Height = 1, ParentHash = replicate 32 0, Lhat = 0,
        Bits = Some (- 8), Timestamp = 604800000000000, StateRoot = replicate 32 0, Nonce = 0\<rparr>"]
  by simp

text \<open>
  The claim as stated fails: with rounding toward zero, bits \<open>-5\<close> and the span clamped
  to a quarter of the expected one would give \<open>-1\<close>; \<open>Adjust\<close> returns \<open>-2\<close>.
\<close>

theorem Adjust_rounding_counterexample:
  "Adjust (\<lambda>h. if h = 1 then Some \<lparr>Height = 1, ParentHash = replicate 32 0, Lhat = 0,
        Bits = Some (- 5), Timestamp = 0, StateRoot = replicate 32 0, Nonce = 0\<rparr> else None)
        (Some \<lparr>Height = 2016, ParentHash = replicate 32 0, Lhat = 0,
        Bits = Some (- 5), Timestamp = 0, StateRoot = replicate 32 0, Nonce = 0\<rparr>)
      = (- 2, None)
   \<and> spec_new_bits (- 5) 0 = - 1"
proof
  show "spec_new_bits (- 5) 0 = - 1"
    by (simp add: spec_new_bits_def quot_toward_zero_def Let_def)
  show "Adjust (\<lambda>h. if h = 1 then Some \<lparr>Height = 1, ParentHash = replicate 32 0, Lhat = 0,
        Bits = Some (- 5), Timestamp = 0, StateRoot = replicate 32 0, Nonce = 0\<rparr> else None)
        (Some \<lparr>Height = 2016, ParentHash = replicate 32 0, Lhat = 0,
        Bits = Some (- 5), Timestamp = 0, StateRoot = replicate 32 0, Nonce = 0\<rparr>)
      = (- 2, None)"
    by (subst Adjust_closed_form [where b = "- 5" and first = "\<lparr>Height = 1, ParentHash = replicate 32 0, Lhat = 0,
        Bits = Some (- 5), Timestamp = 0, StateRoot = replicate 32 0, Nonce = 0\<rparr>"]) simp_all
qed

section \<open>Serving block requests\<close>

text \<open>
  Unless the last height is the largest 64-bit value, the serving loop ends and has
  collected the blocks present at the heights from \<open>h\<close> to \<open>stop\<close>, in order.
\<close>

lemma serve_loop_closed:
  assumes "stop \<noteq> - 1"
  shows "serve_loop B h stop acc
           = Some (acc @ List.map_filter B (map word_of_nat [unat h ..< Suc (unat stop)]))"
  using assms
proof (induction "Suc (unat stop) - unat h" arbitrary: h acc)
  case 0
  then have "\<not> h \<le> stop" by (simp add: word_le_nat_alt)
  with 0 show ?case
    by (subst serve_loop.simps) (simp add: List.map_filter_simps del: upt_Suc)
next
  case (Suc n)
  then have le: "h \<le> stop" by (simp add: word_le_nat_alt)
  then have "unat h \<le> unat stop" by (simp add: word_le_nat_alt)
  moreover have "unat stop < 2 ^ 64 - 1"
  proof -
    have "unat (- 1 :: u64) = 2 ^ 64 - 1" by (simp add: unsigned_minus_1_eq_mask mask_eq_exp_minus_1)
    then have "unat stop \<noteq> 2 ^ 64 - 1"
      using Suc.prems by (simp add: word_unat_eq_iff)
    moreover have "unat stop < 2 ^ 64"
      using unsigned_less [of stop, where ?'a = nat] by simp
    ultimately show ?thesis by simp
  qed
  ultimately have u: "unat (h + 1) = Suc (unat h)"
    by (simp add: unat_word_ariths)
  with Suc have "n = Suc (unat stop) - unat (h + 1)" by simp
  from Suc.hyps(1) [OF this Suc.prems]
  have IH: "\<And>acc. serve_loop B (h + 1) stop acc
      = Some (acc @ List.map_filter B (map word_of_nat [unat (h + 1) ..< Suc (unat stop)]))" .
  have r: "[unat h ..< Suc (unat stop)] = unat h # [unat (h + 1) ..< Suc (unat stop)]"
    using \<open>unat h \<le> unat stop\<close> u by (simp add: upt_conv_Cons del: upt_Suc)
  show ?case
    using le
    by (subst serve_loop.simps)
      (simp add: IH r List.map_filter_simps del: upt_Suc split: option.splits)
qed

lemma map_filter_all_present: "List.map_filter (\<lambda>h. Some (f h)) xs = map f xs"
  by (induction xs) (simp_all add: List.map_filter_simps)

text \<open>
  C9 at a failing input. With every height present, the request for the heights 1 to 513
  is not capped and the response holds 513 blocks; the request for 1 to 10000 is capped
  to the heights 1 to 513 and the response holds 513 blocks as well.
\<close>

theorem handleBlockReq_serves_513:
  "(\<exists>resp. handleBlockReq (\<lambda>h. Some h) \<lparr>From = 1, To = 513\<rparr> = Some resp
       \<and> length resp = 513)
   \<and> (\<exists>resp. handleBlockReq (\<lambda>h. Some h) \<lparr>From = 1, To = 10000\<rparr> = Some resp
       \<and> length resp = 513)"
proof -
  have ne: "(513 :: u64) \<noteq> - 1" by simp
  have run: "serve_loop (\<lambda>h. Some h) 1 513 []
      = Some (map word_of_nat [unat (1 :: u64) ..< Suc (unat (513 :: u64))])"
    using serve_loop_closed [OF ne, of "\<lambda>h. Some h" 1 "[]"]
    by (simp only: map_filter_all_present append_Nil list.map_ident)
  have len: "length (map (word_of_nat :: nat \<Rightarrow> u64) [unat (1 :: u64) ..< Suc (unat (513 :: u64))]) = 513"
    by simp
  have c1: "cap_request \<lparr>From = 1, To = 513\<rparr> = \<lparr>From = 1, To = 513\<rparr>"
    by (simp add: cap_request_def)
  have c2: "cap_request \<lparr>From = 1, To = 10000\<rparr> = \<lparr>From = 1, To = 513\<rparr>"
    by (simp add: cap_request_def)
  show ?thesis
    using run len by (simp add: handleBlockReq_def c1 c2 del: upt_Suc)
qed

section \<open>Round trip of the block encoding\<close>

















lemma enc_time_not_null: "enc_time year_ok t = Some j \<Longrightarrow> j \<noteq> JNull"
  by (auto simp add: enc_time_def split: if_splits)













section \<open>The quiz\<close>

lemma Intn_less: "0 < n \<Longrightarrow> fst (Intn acc rng n) < n"
  by (simp add: Intn_def split: prod.splits)

lemma length_ProceduralQuiz:
  "length (ProceduralQuiz src acc h n) = 3 + fst (Intn acc (src (h + n)) 3)"
  by (simp add: ProceduralQuiz_def Let_def split: prod.splits)

lemma ProceduralQuiz_count:
  "3 \<le> length (ProceduralQuiz src acc h n) \<and> length (ProceduralQuiz src acc h n) \<le> 5"
  using Intn_less [of 3 acc "src (h + n)"] by (simp add: length_ProceduralQuiz)

lemma foldl_prompt:
  "foldl (\<lambda>prompt quiz. prompt @ quiz @ [c]) p qs = p @ concat (map (\<lambda>q. q @ [c]) qs)"
  by (induction qs arbitrary: p) simp_all

lemma prompt_of_concat: "prompt_of qs = concat (map (\<lambda>q. q @ [CHR 0x0A]) qs)"
  by (simp add: prompt_of_def foldl_prompt)

lemma prompt_nonempty: "prompt_of (ProceduralQuiz src acc h n) \<noteq> []"
proof -
  have "ProceduralQuiz src acc h n \<noteq> []"
    using ProceduralQuiz_count [of src acc h n] by auto
  then show ?thesis by (cases "ProceduralQuiz src acc h n") (simp_all add: prompt_of_concat)
qed

section \<open>Block validation\<close>

lemma verify_transactions_pass:
  "verify_transactions e i ps = None \<longleftrightarrow> (\<forall>p \<in> set ps. \<exists>t. p = Some t \<and> Verify e t = None)"
  by (induction ps arbitrary: i) (auto split: option.splits)

lemma verify_transactions_first_failure:
  assumes "k < length ps"
    and "\<forall>j<k. \<exists>t. ps ! j = Some t \<and> Verify e t = None"
    and "ps ! k = Some tx" "Verify e tx = Some err"
  shows "verify_transactions e i ps = Some (TxVerifyFailed (i + k) err)"
  using assms
proof (induction ps arbitrary: i k)
  case Nil
  then show ?case by simp
next
  case (Cons p ps)
  show ?case
  proof (cases k)
    case 0
    with Cons.prems show ?thesis by simp
  next
    case (Suc k')
    from Cons.prems(2) Suc obtain t where t: "p = Some t" "Verify e t = None"
      by fastforce
    have "verify_transactions e (Suc i) ps = Some (TxVerifyFailed (Suc i + k') err)"
    proof (rule Cons.IH)
      show "k' < length ps" using Cons.prems(1) Suc by simp
      show "\<forall>j<k'. \<exists>t. ps ! j = Some t \<and> Verify e t = None"
        using Cons.prems(2) Suc by fastforce
      show "ps ! k' = Some tx" using Cons.prems(3) Suc by simp
      show "Verify e tx = Some err" by (rule Cons.prems(4))
    qed
    with t Suc show ?thesis by simp
  qed
qed

lemma VerifyBlock_tx_failure:
  assumes "NewLLM_ok e"
    and "k < length (elems (Transactions b))"
    and "\<forall>j<k. \<exists>t. elems (Transactions b) ! j = Some t \<and> Verify e t = None"
    and "elems (Transactions b) ! k = Some tx" "Verify e tx = Some err"
  shows "VerifyBlock e b = Some (TxVerifyFailed k err)"
proof -
  have "0 < len (Transactions b)"
    using assms(2) by (auto simp add: len_def elems_def split: option.splits)
  moreover have "verify_transactions e 0 (elems (Transactions b)) = Some (TxVerifyFailed k err)"
    using verify_transactions_first_failure [OF assms(2-5), of 0] by simp
  ultimately show ?thesis using assms(1) by (simp add: VerifyBlock_def)
qed

lemma VerifyBlock_after_transactions:
  assumes "NewLLM_ok e"
    and "\<forall>p \<in> set (elems (Transactions b)). \<exists>t. p = Some t \<and> Verify e t = None"
    and "replay_loss e b = Some loss"
  shows "VerifyBlock e b =
           (if loss \<noteq> Lhat (Header b) then Some InvalidLoss
            else case Bits (Header b) of
                   None \<Rightarrow> Some NilDereference
                 | Some bits \<Rightarrow> if sint (Int64 bits) < sint loss then Some TargetNotMet else None)"
proof -
  have "(if len (Transactions b) > 0
         then verify_transactions e 0 (elems (Transactions b)) else None) = None"
    using assms(2) by (simp add: verify_transactions_pass)
  then show ?thesis
    using assms(1,3) by (simp add: VerifyBlock_def prompt_nonempty Let_def)
qed

lemma Uint64_five: "Uint64 [5, 0, 0, 0, 0, 0, 0, 0] = 5"
  by code_simp

lemma replay_loss_test: "replay_loss test_env b = Some 5"
  by (simp add: replay_loss_def test_env_def Let_def Uint64_five)

lemma Verify_test:
  "Verify test_env coinbase_tx = None" "Verify test_env signed_tx = None"
  "Verify test_env forged_tx = Some SenderMismatch"
  by (simp_all add: Verify_def test_env_def coinbase_tx_def signed_tx_def forged_tx_def
      len_def elems_def)

text \<open>
  C2, as the code has it. With the model loaded, \<open>VerifyBlock\<close> first verifies the
  transaction signatures in order, a coinbase transaction (empty \<open>From\<close>) passing without
  a signature, and fails at the first transaction whose verification fails. When all pass
  and the inference succeeds, it fails with \<open>InvalidLoss\<close> exactly when the replayed loss
  differs from the loss claim of the header; and (for non-nil bits) it fails with
  \<open>TargetNotMet\<close> exactly when the replayed loss equals the loss claim and exceeds the
  signed 64-bit value \<open>Bits.Int64()\<close> of the bits, which is the bits themselves
  when they fit into 64 bits.
\<close>

theorem VerifyBlock_checks:
  assumes "NewLLM_ok e"
  shows "(len (tx_From coinbase) = 0 \<longrightarrow> Verify e coinbase = None)
     \<and> (k < length (elems (Transactions b))
          \<and> (\<forall>j<k. \<exists>t. elems (Transactions b) ! j = Some t \<and> Verify e t = None)
          \<and> elems (Transactions b) ! k = Some tx \<and> Verify e tx = Some err
        \<longrightarrow> VerifyBlock e b = Some (TxVerifyFailed k err))
     \<and> ((\<forall>p \<in> set (elems (Transactions b)). \<exists>t. p = Some t \<and> Verify e t = None)
          \<and> replay_loss e b = Some loss
        \<longrightarrow> (VerifyBlock e b = Some InvalidLoss \<longleftrightarrow> loss \<noteq> Lhat (Header b))
          \<and> (Bits (Header b) = Some bits
              \<longrightarrow> (VerifyBlock e b = Some TargetNotMet
                     \<longleftrightarrow> loss = Lhat (Header b) \<and> sint (Int64 bits) < sint loss)
                \<and> (- (2 ^ 63) \<le> bits \<and> bits < 2 ^ 63 \<longrightarrow> sint (Int64 bits) = bits)))"
proof (intro conjI impI)
  show "Verify e coinbase = None" if "len (tx_From coinbase) = 0"
    using that by (simp add: Verify_def)
next
  assume "k < length (elems (Transactions b))
          \<and> (\<forall>j<k. \<exists>t. elems (Transactions b) ! j = Some t \<and> Verify e t = None)
          \<and> elems (Transactions b) ! k = Some tx \<and> Verify e tx = Some err"
  then show "VerifyBlock e b = Some (TxVerifyFailed k err)"
    using VerifyBlock_tx_failure [OF assms, of k b tx err] by blast
next
  assume a: "(\<forall>p \<in> set (elems (Transactions b)). \<exists>t. p = Some t \<and> Verify e t = None)
          \<and> replay_loss e b = Some loss"
  note eq = VerifyBlock_after_transactions [OF assms, of b loss]
  from a eq show "VerifyBlock e b = Some InvalidLoss \<longleftrightarrow> loss \<noteq> Lhat (Header b)"
    by (auto split: option.splits if_splits)
  assume bits: "Bits (Header b) = Some bits"
  from a eq bits show "VerifyBlock e b = Some TargetNotMet
      \<longleftrightarrow> loss = Lhat (Header b) \<and> sint (Int64 bits) < sint loss"
    by (auto split: option.splits if_splits)
  assume "- (2 ^ 63) \<le> bits \<and> bits < 2 ^ 63"
  then show "sint (Int64 bits) = bits" by (simp add: sint_Int64)
qed


lemma test_env_facts:
  "NewLLM_ok test_env"
  "elems (Transactions forged_block) = [Some coinbase_tx, Some forged_tx]"
  "elems (Transactions wide_bits_block) = [Some coinbase_tx, Some signed_tx]"
  "elems (Transactions wrong_loss_block) = []"
  "Lhat (Header wide_bits_block) = 5" "Bits (Header wide_bits_block) = Some (2 ^ 64)"
  "Lhat (Header wrong_loss_block) = 6" "Bits (Header wrong_loss_block) = Some (- 1)"
  by (simp_all add: test_env_def forged_block_def wide_bits_block_def wrong_loss_block_def
      test_block_def test_header_def elems_def)

lemma Int64_wide: "sint (Int64 18446744073709551616) = 0" "sint (Int64 (- 1)) = - 1"
  by (simp_all add: Int64_word_of_int)

theorem VerifyBlock_checks_witness:
  "NewLLM_ok test_env
   \<and> Verify test_env coinbase_tx = None
   \<and> VerifyBlock test_env forged_block = Some (TxVerifyFailed 1 SenderMismatch)
   \<and> replay_loss test_env wrong_loss_block = Some 5
   \<and> VerifyBlock test_env wrong_loss_block = Some InvalidLoss
   \<and> VerifyBlock test_env wrong_loss_block \<noteq> Some TargetNotMet
   \<and> sint (Int64 (- 1)) = - 1"
  using VerifyBlock_checks [of test_env coinbase_tx 1 forged_block forged_tx SenderMismatch 5 0]
    VerifyBlock_checks [of test_env coinbase_tx 0 wrong_loss_block forged_tx SenderMismatch 5 "- 1"]
  by (simp add: test_env_facts Verify_test replay_loss_test)

text \<open>
  The claim as stated fails twice. With bits \<open>2^64\<close>, whose low 64 bits are 0, a block
  whose loss 5 equals its loss claim is rejected with \<open>TargetNotMet\<close> although the loss
  does not exceed the bits. And a block whose replayed loss 5 exceeds its bits \<open>-1\<close> but
  differs from its loss claim fails with \<open>InvalidLoss\<close>, not with \<open>TargetNotMet\<close>.
\<close>

theorem VerifyBlock_counterexample:
  "replay_loss test_env wide_bits_block = Some 5
   \<and> Bits (Header wide_bits_block) = Some (2 ^ 64)
   \<and> sint (5 :: i64) \<le> 2 ^ 64
   \<and> VerifyBlock test_env wide_bits_block = Some TargetNotMet
   \<and> replay_loss test_env wrong_loss_block = Some 5
   \<and> Bits (Header wrong_loss_block) = Some (- 1)
   \<and> - 1 < sint (5 :: i64)
   \<and> VerifyBlock test_env wrong_loss_block = Some InvalidLoss"
proof -
  have "VerifyBlock test_env wide_bits_block = Some TargetNotMet"
    by (subst VerifyBlock_after_transactions [where loss = 5])
      (simp_all add: test_env_facts Verify_test replay_loss_test Int64_wide)
  moreover have "VerifyBlock test_env wrong_loss_block = Some InvalidLoss"
    by (subst VerifyBlock_after_transactions [where loss = 5])
      (simp_all add: test_env_facts replay_loss_test)
  ultimately show ?thesis
    by (simp add: test_env_facts replay_loss_test)
qed

section \<open>The chain manager\<close>

lemma PutBlock_fields:
  "blocks (PutBlock env c h b) = blocks c" "head (PutBlock env c h b) = head c"
  "sideBranches (PutBlock env c h b) = sideBranches c"
  "blockHashIndex (PutBlock env c h b) = blockHashIndex c"
  "OrphanPool (PutBlock env c h b) = OrphanPool c"
  "orphanImportInProgress (PutBlock env c h b) = orphanImportInProgress c"
  by (simp_all add: PutBlock_def split: sum.splits)

lemma reorg_apply_fields:
  "head (reorg_apply env c b) = Height (Header b)"
  "blocks (reorg_apply env c b) = AList.update (Height (Header b)) b (blocks c)"
  "sideBranches (reorg_apply env c b) = sideBranches c"
  "blockHashIndex (reorg_apply env c b) = blockHashIndex c"
  "OrphanPool (reorg_apply env c b) = OrphanPool c"
  "orphanImportInProgress (reorg_apply env c b) = orphanImportInProgress c"
  by (simp_all add: reorg_apply_def PutBlock_fields)

lemma foldl_reorg_sideBranches:
  "sideBranches (foldl (reorg_apply env) c bs) = sideBranches c"
  by (induction bs arbitrary: c) (simp_all add: reorg_apply_fields)

lemma foldl_reorg_index:
  "blockHashIndex (foldl (reorg_apply env) c bs) = blockHashIndex c"
  by (induction bs arbitrary: c) (simp_all add: reorg_apply_fields)

lemma foldl_reorg_pool:
  "OrphanPool (foldl (reorg_apply env) c bs) = OrphanPool c"
  "orphanImportInProgress (foldl (reorg_apply env) c bs) = orphanImportInProgress c"
  by (induction bs arbitrary: c) (simp_all add: reorg_apply_fields)

lemma foldl_reorg_head:
  "bs \<noteq> [] \<Longrightarrow> head (foldl (reorg_apply env) c bs) = Height (Header (last bs))"
  by (induction bs arbitrary: c rule: rev_induct) (simp_all add: reorg_apply_fields)

text \<open>After the blocks of a branch have been applied, a height holds the last block of
  the branch with that height, or what it held before.\<close>

lemma foldl_reorg_blocks:
  "map_of (blocks (foldl (reorg_apply env) c bs)) h
     = (case find (\<lambda>b. Height (Header b) = h) (rev bs) of
          Some b \<Rightarrow> Some b
        | None \<Rightarrow> map_of (blocks c) h)"
  by (induction bs arbitrary: c rule: rev_induct)
    (simp_all add: reorg_apply_fields update_conv')

lemma foldl_reorg_blocks_list:
  "blocks (foldl (reorg_apply env) c bs)
     = foldl (\<lambda>al b. AList.update (Height (Header b)) b al) (blocks c) bs"
  by (induction bs arbitrary: c) (simp_all add: reorg_apply_fields)

lemma reorgToBranch_Inr:
  assumes "branch \<noteq> []"
  shows "\<exists>c'. reorgToBranch env c branch = Inr c'
            \<and> head c' = Height (Header (last branch))
            \<and> sideBranches c' = sideBranches c
            \<and> blockHashIndex c' = blockHashIndex c
            \<and> OrphanPool c' = OrphanPool c
            \<and> orphanImportInProgress c' = orphanImportInProgress c
            \<and> blocks c' = foldl (\<lambda>al b. AList.update (Height (Header b)) b al) (blocks c) branch
            \<and> (\<forall>h. map_of (blocks c') h
                   = (case find (\<lambda>b. Height (Header b) = h) (rev branch) of
                        Some b \<Rightarrow> Some b
                      | None \<Rightarrow> map_of (blocks c) h))"
proof -
  obtain first rest where br: "branch = first # rest"
    using assms by (cases branch) auto
  let ?c = "c\<lparr>head := Height (Header first) - 1\<rparr>"
  have "reorgToBranch env c branch = Inr (foldl (reorg_apply env) ?c branch)"
    by (simp add: reorgToBranch_def br Let_def)
  moreover have "head (foldl (reorg_apply env) ?c branch) = Height (Header (last branch))"
    using assms by (rule foldl_reorg_head)
  moreover have "sideBranches (foldl (reorg_apply env) ?c branch) = sideBranches c"
    by (simp add: foldl_reorg_sideBranches)
  moreover have "blockHashIndex (foldl (reorg_apply env) ?c branch) = blockHashIndex c"
    by (simp add: foldl_reorg_index)
  moreover have "OrphanPool (foldl (reorg_apply env) ?c branch) = OrphanPool c"
    and "orphanImportInProgress (foldl (reorg_apply env) ?c branch) = orphanImportInProgress c"
    by (simp_all add: foldl_reorg_pool)
  moreover have "blocks (foldl (reorg_apply env) ?c branch)
      = foldl (\<lambda>al b. AList.update (Height (Header b)) b al) (blocks c) branch"
    by (simp add: foldl_reorg_blocks_list)
  moreover have "map_of (blocks (foldl (reorg_apply env) ?c branch)) h
                   = (case find (\<lambda>b. Height (Header b) = h) (rev branch) of
                        Some b \<Rightarrow> Some b
                      | None \<Rightarrow> map_of (blocks c) h)" for h
    by (simp add: foldl_reorg_blocks split: option.splits)
  ultimately show ?thesis by blast
qed






lemma addToSideBranch_lookup:
  "map_of (sideBranches (addToSideBranch c block)) (ParentHash (Header block))
     = Some ((case map_of (sideBranches c) (ParentHash (Header block)) of
                None \<Rightarrow> [] | Some br \<Rightarrow> br) @ [block])"
  by (simp add: addToSideBranch_def Let_def update_conv')

lemma addToOrphanPool_lookup:
  "map_of (OrphanPool (addToOrphanPool env c block)) (ParentHash (Header block))
     = Some ((case map_of (OrphanPool c) (ParentHash (Header block)) of
                None \<Rightarrow> [] | Some bs \<Rightarrow> bs) @ [block])"
  by (simp add: addToOrphanPool_def Let_def update_conv')

lemma addToOrphanPool_fields:
  "blocks (addToOrphanPool env c block) = blocks c"
  "blockHashIndex (addToOrphanPool env c block) = blockHashIndex c"
  "head (addToOrphanPool env c block) = head c"
  "sideBranches (addToOrphanPool env c block) = sideBranches c"
  "requested (addToOrphanPool env c block)
     = (if has_RequestBlockByHash env then requested c @ [ParentHash (Header block)]
        else requested c)"
  by (simp_all add: addToOrphanPool_def Let_def)

lemma import_existing:
  assumes "map_of (blocks c) (Height (Header block)) = Some existing"
    and "map_of (blocks c) (head c) = Some headBlock"
  shows "ImportBlock env c block =
           (if hash_of env existing \<noteq> hash_of env block
               \<and> ParentHash (Header block) \<noteq> hash_of env headBlock
            then (None, checkReorg env (addToSideBranch c block))
            else (Some Duplicate, c))"
  using assms by (simp add: ImportBlock_def import_locked_def)

lemma import_orphan:
  assumes "map_of (blocks c) (Height (Header block)) = None"
    and "\<forall>(h, b) \<in> set (blocks c). hash_of env b \<noteq> ParentHash (Header block)"
  shows "ImportBlock env c block = (Some OrphanQueued, addToOrphanPool env c block)"
proof -
  have "find (\<lambda>(h, b). hash_of env b = ParentHash (Header block)) (blocks c) = None"
    using assms(2) by (auto simp add: find_None_iff)
  then show ?thesis
    using assms(1) by (simp add: ImportBlock_def import_locked_def)
qed

text \<open>
  C5, as the code has it. For every call of \<open>ImportBlock\<close> on a chain whose head block
  is present: if a block already exists at the height of the block, then when the hash of
  the incoming block differs from the hash of the existing block and its parent hash is
  not the hash of the current head, the block is appended to the side branch filed under
  its parent hash, \<open>checkReorg\<close> runs and the import returns without error, and in
  every other such case the import fails with \<open>Duplicate\<close> and changes nothing; and if
  no block exists at that height and no block of the main chain (\<open>by_height\<close>) has the
  parent hash as its hash, the block is appended to the orphans waiting for that parent,
  the import fails with \<open>OrphanQueued\<close>, and, when the callback is set, a request for
  the parent is started.
\<close>

theorem ImportBlock_existing_or_orphan:
  "(map_of (blocks c) (Height (Header block)) = Some existing
      \<and> map_of (blocks c) (head c) = Some headBlock
    \<longrightarrow> (if hash_of env existing \<noteq> hash_of env block
              \<and> ParentHash (Header block) \<noteq> hash_of env headBlock
          then ImportBlock env c block = (None, checkReorg env (addToSideBranch c block))
               \<and> map_of (sideBranches (addToSideBranch c block)) (ParentHash (Header block))
                   = Some ((case map_of (sideBranches c) (ParentHash (Header block)) of
                              None \<Rightarrow> [] | Some br \<Rightarrow> br) @ [block])
          else ImportBlock env c block = (Some Duplicate, c)))
   \<and> (map_of (blocks c) (Height (Header block)) = None
      \<and> (\<forall>(h, b) \<in> set (blocks c). hash_of env b \<noteq> ParentHash (Header block))
    \<longrightarrow> ImportBlock env c block = (Some OrphanQueued, addToOrphanPool env c block)
        \<and> map_of (OrphanPool (addToOrphanPool env c block)) (ParentHash (Header block))
            = Some ((case map_of (OrphanPool c) (ParentHash (Header block)) of
                       None \<Rightarrow> [] | Some bs \<Rightarrow> bs) @ [block])
        \<and> (has_RequestBlockByHash env
             \<longrightarrow> requested (addToOrphanPool env c block)
                   = requested c @ [ParentHash (Header block)])
        \<and> blocks (addToOrphanPool env c block) = blocks c
        \<and> head (addToOrphanPool env c block) = head c)"
  using import_existing [of c block existing headBlock env] import_orphan [of c block env]
  by (simp add: addToSideBranch_lookup addToOrphanPool_lookup addToOrphanPool_fields)

lemma find_SomeD: "find P xs = Some x \<Longrightarrow> x \<in> set xs \<and> P x"
  by (induction xs) (auto split: if_splits)



lemma length_test_hash: "length (test_hash h n) = 32"
  by (simp add: test_hash_def length_PutUint64)

lemma block_at_fields:
  "Height (Header (block_at h n p)) = h" "Nonce (Header (block_at h n p)) = n"
  "ParentHash (Header (block_at h n p)) = p"
  "Bits (Header (block_at h n p)) = Some 987654321"
  by (simp_all add: block_at_def test_block_def test_header_def)

lemma hash_of_block_at:
  assumes "length p = 32"
  shows "hash_of test_chain_env (block_at h n p) = test_hash h n"
proof -
  have "hash_of test_chain_env (block_at h n p)
          = test_digest (PutUint64 h @ p @ PutUint64 n)"
    using assms Hash_buffer [of "Header (block_at h n p)" test_digest]
    by (simp add: hash_of_def Block_Hash_def test_chain_env_def block_at_fields)
  then show ?thesis
    using assms by (simp add: test_digest_def test_hash_def length_PutUint64)
qed

lemma PutUint64_small:
  "PutUint64 0 = [0, 0, 0, 0, 0, 0, 0, 0]" "PutUint64 1 = [1, 0, 0, 0, 0, 0, 0, 0]"
  "PutUint64 6 = [6, 0, 0, 0, 0, 0, 0, 0]" "PutUint64 8 = [8, 0, 0, 0, 0, 0, 0, 0]"
  "PutUint64 9 = [9, 0, 0, 0, 0, 0, 0, 0]" "PutUint64 5 = [5, 0, 0, 0, 0, 0, 0, 0]"
  "PutUint64 4 = [4, 0, 0, 0, 0, 0, 0, 0]"
  by code_simp+

lemma import_side_branched:
  assumes "map_of (blocks c) (Height (Header b)) = None"
    and "find (\<lambda>(h, x). hash_of env x = ParentHash (Header b)) (blocks c) = Some (k, parent)"
    and "Height (Header parent) \<noteq> Height (Header b) - 1"
  shows "ImportBlock env c b = (Some SideBranched, addToSideBranch c b)"
  using assms by (simp add: ImportBlock_def import_locked_def)

lemma import_locked_extends:
  assumes "map_of (blocks c) (Height (Header b)) = None"
    and "find (\<lambda>(h, x). hash_of env x = ParentHash (Header b)) (blocks c) = Some (k, parent)"
    and "Height (Header parent) = Height (Header b) - 1"
    and "Height (Header b) mod 2016 \<noteq> 0"
  shows "import_locked env c b =
           (None, True,
            store_block env c (b\<lparr>Header := (Header b)\<lparr>Bits := Bits (Header parent)\<rparr>\<rparr>))"
proof -
  from assms(2) have "hash_of env parent = ParentHash (Header b)"
    by (auto dest: find_SomeD)
  then show ?thesis
    using assms
    by (simp add: import_locked_def hash_of_def Block_Hash_def RetargetInterval_def)
qed

lemma import_extends:
  assumes "map_of (blocks c) (Height (Header b)) = None"
    and "find (\<lambda>(h, x). hash_of env x = ParentHash (Header b)) (blocks c) = Some (k, parent)"
    and "Height (Header parent) = Height (Header b) - 1"
    and "Height (Header b) mod 2016 \<noteq> 0"
  shows "ImportBlock env c b =
           (None, tryImportOrphans env
                    (store_block env c (b\<lparr>Header := (Header b)\<lparr>Bits := Bits (Header parent)\<rparr>\<rparr>))
                    (hash_of env b))"
  by (simp add: ImportBlock_def import_locked_extends [OF assms])

text \<open>A block whose parent is found on the main chain is never queued as an orphan.\<close>

lemma import_not_orphan:
  assumes "find (\<lambda>(h, x). hash_of env x = ParentHash (Header b)) (blocks c) \<noteq> None"
  shows "fst (ImportBlock env c b) \<noteq> Some OrphanQueued"
  using assms
  by (auto simp add: ImportBlock_def import_locked_def Let_def
      split: option.splits if_splits prod.splits)

lemma tryImportOrphans_none:
  assumes "map_of (OrphanPool c) ph = None" "\<not> orphanImportInProgress c"
  shows "tryImportOrphans env c ph = c"
  using assms by (simp add: tryImportOrphans_def Let_def)

lemma addToSideBranch_fields:
  "blocks (addToSideBranch c b) = blocks c" "head (addToSideBranch c b) = head c"
  "blockHashIndex (addToSideBranch c b) = blockHashIndex c"
  "OrphanPool (addToSideBranch c b) = OrphanPool c"
  "orphanImportInProgress (addToSideBranch c b) = orphanImportInProgress c"
  by (simp_all add: addToSideBranch_def Let_def)

lemma test_hash_distinct:
  "test_hash 0 0 \<noteq> test_hash 1 1" "test_hash 0 0 \<noteq> test_hash 8 1"
  "test_hash 1 1 \<noteq> test_hash 8 1" "test_hash 0 0 \<noteq> test_hash 6 1"
  "test_hash 1 1 \<noteq> test_hash 6 1" "test_hash 0 0 \<noteq> test_hash 4 1"
  "test_hash 0 5 \<noteq> test_hash 0 0" "test_hash 9 9 \<noteq> test_hash 0 0"
  "test_hash 6 1 \<noteq> test_hash 8 1"
  by (simp_all add: test_hash_def PutUint64_small)

lemma genesis_hash: "hash_of test_chain_env genesis = test_hash 0 0"
  by (simp add: genesis_def hash_of_block_at)

lemma import_X6:
  "ImportBlock test_chain_env genesis_chain (block_at 6 1 (test_hash 0 0))
     = (Some SideBranched, addToSideBranch genesis_chain (block_at 6 1 (test_hash 0 0)))"
  by (rule import_side_branched [where k = 0 and parent = genesis])
    (simp_all add: genesis_chain_def block_at_fields genesis_hash,
     simp add: genesis_def block_at_fields)

lemma import_Y8:
  "ImportBlock test_chain_env
      (addToSideBranch genesis_chain (block_at 6 1 (test_hash 0 0)))
      (block_at 8 1 (test_hash 0 0))
     = (Some SideBranched,
        addToSideBranch (addToSideBranch genesis_chain (block_at 6 1 (test_hash 0 0)))
          (block_at 8 1 (test_hash 0 0)))"
  by (rule import_side_branched [where k = 0 and parent = genesis])
    (simp_all add: addToSideBranch_fields genesis_chain_def block_at_fields genesis_hash,
     simp add: genesis_def block_at_fields)

lemma forked_chain_eq:
  "forked_chain = genesis_chain\<lparr>sideBranches :=
      [(test_hash 0 0, [block_at 6 1 (test_hash 0 0), block_at 8 1 (test_hash 0 0)])]\<rparr>"
  by (simp add: forked_chain_def import_X6 import_Y8)
    (simp add: addToSideBranch_def block_at_fields genesis_chain_def)

lemma checkReorg_visit_reorg:
  assumes "br \<noteq> []" "head c < Height (Header (last br))"
  shows "head (checkReorg_visit env c (k, br)) = Height (Header (last br))
     \<and> sideBranches (checkReorg_visit env c (k, br)) = AList.delete k (sideBranches c)
     \<and> blockHashIndex (checkReorg_visit env c (k, br)) = blockHashIndex c
     \<and> OrphanPool (checkReorg_visit env c (k, br)) = OrphanPool c
     \<and> orphanImportInProgress (checkReorg_visit env c (k, br)) = orphanImportInProgress c
     \<and> blocks (checkReorg_visit env c (k, br))
          = foldl (\<lambda>al b. AList.update (Height (Header b)) b al) (blocks c) br
     \<and> (\<forall>h. map_of (blocks (checkReorg_visit env c (k, br))) h
            = (case find (\<lambda>b. Height (Header b) = h) (rev br) of
                 Some b \<Rightarrow> Some b
               | None \<Rightarrow> map_of (blocks c) h))"
proof -
  from reorgToBranch_Inr [OF assms(1), of env c] obtain c' where
    c': "reorgToBranch env c br = Inr c'" "head c' = Height (Header (last br))"
      "sideBranches c' = sideBranches c" "blockHashIndex c' = blockHashIndex c"
      "OrphanPool c' = OrphanPool c" "orphanImportInProgress c' = orphanImportInProgress c"
      "blocks c' = foldl (\<lambda>al b. AList.update (Height (Header b)) b al) (blocks c) br"
      "\<forall>h. map_of (blocks c') h
            = (case find (\<lambda>b. Height (Header b) = h) (rev br) of
                 Some b \<Rightarrow> Some b
               | None \<Rightarrow> map_of (blocks c) h)"
    by blast
  have "checkReorg_visit env c (k, br) = c'\<lparr>sideBranches := AList.delete k (sideBranches c')\<rparr>"
    using assms c'(1) by (simp add: checkReorg_visit_def Let_def)
  then show ?thesis using c' by simp
qed

lemma store_block_pre:
  "\<exists>c1. store_block env c b = checkReorg env c1
      \<and> head c1 = Height (Header b)
      \<and> blocks c1 = AList.update (Height (Header b)) b (blocks c)
      \<and> blockHashIndex c1 = AList.update (hash_of env b) b (blockHashIndex c)
      \<and> sideBranches c1 = sideBranches c
      \<and> OrphanPool c1 = OrphanPool c
      \<and> orphanImportInProgress c1 = orphanImportInProgress c"
proof -
  define c0 where "c0 = c\<lparr>blocks := AList.update (Height (Header b)) b (blocks c),
                         blockHashIndex := AList.update (hash_of env b) b (blockHashIndex c),
                         head := Height (Header b)\<rparr>"
  define c1 where "c1 = PutBlock env c0 (Height (Header b)) b"
  define c2 where "c2 = (if PruneDepth env > 0 then PruneBlocks c1 (PruneDepth env) (head c1)
                         else c1)"
  define c3 where "c3 = notifyHeadChange c2"
  have "store_block env c b = checkReorg env c3"
    by (simp add: store_block_def Let_def c0_def c1_def c2_def c3_def)
  moreover have "head c3 = Height (Header b)"
    "blocks c3 = AList.update (Height (Header b)) b (blocks c)"
    "blockHashIndex c3 = AList.update (hash_of env b) b (blockHashIndex c)"
    "sideBranches c3 = sideBranches c" "OrphanPool c3 = OrphanPool c"
    "orphanImportInProgress c3 = orphanImportInProgress c"
    by (simp_all add: c3_def c2_def c1_def c0_def notifyHeadChange_def PruneBlocks_def
        PutBlock_fields Let_def)
  ultimately show ?thesis by blast
qed

lemma find_not_None: "x \<in> set xs \<Longrightarrow> P x \<Longrightarrow> find P xs \<noteq> None"
  by (induction xs) auto

lemma reorged_chain_facts:
  "fst (ImportBlock test_chain_env forked_chain (block_at 1 1 (test_hash 0 0))) = None"
  "head reorged_chain = 8"
  "map_of (blocks reorged_chain) 7 = None"
  "map_of (blocks reorged_chain) 8 = Some (block_at 8 1 (test_hash 0 0))"
  "map_of (blocks reorged_chain) 9 = None"
  "map_of (blockHashIndex reorged_chain) (test_hash 8 1) = None"
  "find (\<lambda>(h, x). hash_of test_chain_env x = test_hash 8 1) (blocks reorged_chain) \<noteq> None"
  "store_block test_chain_env forked_chain (block_at 1 1 (test_hash 0 0)) = reorged_chain"
  "blocks reorged_chain = [(0, genesis), (1, block_at 1 1 (test_hash 0 0)),
      (6, block_at 6 1 (test_hash 0 0)), (8, block_at 8 1 (test_hash 0 0))]"
  "sideBranches reorged_chain = []"
proof -
  let ?b = "block_at 1 1 (test_hash 0 0)"
  let ?br = "[block_at 6 1 (test_hash 0 0), block_at 8 1 (test_hash 0 0)]"
  have e: "?b\<lparr>Header := (Header ?b)\<lparr>Bits := Bits (Header genesis)\<rparr>\<rparr> = ?b"
    by (simp add: genesis_def block_at_def test_block_def test_header_def)
  have i: "ImportBlock test_chain_env forked_chain ?b
      = (None, tryImportOrphans test_chain_env
                 (store_block test_chain_env forked_chain ?b) (hash_of test_chain_env ?b))"
    using import_extends [where k = 0 and parent = genesis and env = test_chain_env
        and c = forked_chain and b = ?b]
    by (simp add: e forked_chain_eq genesis_chain_def block_at_fields genesis_hash)
      (simp add: genesis_def block_at_fields)
  then show "fst (ImportBlock test_chain_env forked_chain ?b) = None" by simp
  obtain c1 where c1: "store_block test_chain_env forked_chain ?b = checkReorg test_chain_env c1"
    "head c1 = 1" "blocks c1 = [(0, genesis), (1, ?b)]"
    "blockHashIndex c1 = [(test_hash 0 0, genesis), (test_hash 1 1, ?b)]"
    "sideBranches c1 = [(test_hash 0 0, ?br)]" "OrphanPool c1 = []"
    "\<not> orphanImportInProgress c1"
    using store_block_pre [of test_chain_env forked_chain ?b]
    by (auto simp add: forked_chain_eq genesis_chain_def block_at_fields hash_of_block_at
        length_test_hash test_hash_distinct)
  let ?c2 = "checkReorg_visit test_chain_env c1 (test_hash 0 0, ?br)"
  have v: "checkReorg test_chain_env c1 = ?c2"
    by (simp add: checkReorg_def c1)
  have "head c1 < Height (Header (last ?br))"
    by (simp add: c1 block_at_fields)
  have d: "sideBranches ?c2 = []"
    using checkReorg_visit_reorg [OF _ \<open>head c1 < Height (Header (last ?br))\<close>,
        of test_chain_env "test_hash 0 0"]
    by (simp add: c1)
  from checkReorg_visit_reorg [OF _ \<open>head c1 < Height (Header (last ?br))\<close>,
      of test_chain_env "test_hash 0 0"]
  have f: "head ?c2 = 8" "blockHashIndex ?c2 = blockHashIndex c1" "OrphanPool ?c2 = []"
    "\<not> orphanImportInProgress ?c2"
    "blocks ?c2 = foldl (\<lambda>al b. AList.update (Height (Header b)) b al) (blocks c1) ?br"
    "\<And>h. map_of (blocks ?c2) h
            = (case find (\<lambda>b. Height (Header b) = h) (rev ?br) of
                 Some b \<Rightarrow> Some b
               | None \<Rightarrow> map_of (blocks c1) h)"
    by (simp_all add: c1 block_at_fields)
  have r: "reorged_chain = ?c2"
    using f(3,4) by (simp add: reorged_chain_def i c1(1) v tryImportOrphans_none)
  show "head reorged_chain = 8" by (simp add: r f)
  show "sideBranches reorged_chain = []" by (simp add: r d)
  show "store_block test_chain_env forked_chain ?b = reorged_chain"
    by (simp add: r c1(1) v)
  show "blocks reorged_chain = [(0, genesis), (1, ?b),
      (6, block_at 6 1 (test_hash 0 0)), (8, block_at 8 1 (test_hash 0 0))]"
    by (simp add: r f(5) c1 block_at_fields)
  show "map_of (blocks reorged_chain) 7 = None"
    by (simp add: r f(6) block_at_fields c1)
  show "map_of (blocks reorged_chain) 8 = Some (block_at 8 1 (test_hash 0 0))"
    by (simp add: r f(6) block_at_fields c1)
  show "map_of (blocks reorged_chain) 9 = None"
    by (simp add: r f(6) block_at_fields c1)
  show "map_of (blockHashIndex reorged_chain) (test_hash 8 1) = None"
    using test_hash_distinct by (simp add: r f c1)
  have "(8, block_at 8 1 (test_hash 0 0)) \<in> set (blocks reorged_chain)"
    using \<open>map_of (blocks reorged_chain) 8 = Some (block_at 8 1 (test_hash 0 0))\<close>
    by (rule map_of_SomeD)
  moreover have "hash_of test_chain_env (block_at 8 1 (test_hash 0 0)) = test_hash 8 1"
    by (simp add: hash_of_block_at length_test_hash)
  ultimately show "find (\<lambda>(h, x). hash_of test_chain_env x = test_hash 8 1)
      (blocks reorged_chain) \<noteq> None"
    by (intro find_not_None [where x = "(8, block_at 8 1 (test_hash 0 0))"]) simp_all
qed

lemma test_chain_env_callback: "has_RequestBlockByHash test_chain_env"
  by (simp add: test_chain_env_def)

lemma genesis_fields: "Height (Header genesis) = 0" "ParentHash (Header genesis) = replicate 32 0"
  by (simp_all add: genesis_def block_at_fields)

theorem ImportBlock_existing_or_orphan_witness:
  "map_of (blocks genesis_chain) (Height (Header (block_at 0 5 (test_hash 9 9)))) = Some genesis
   \<and> map_of (blocks genesis_chain) (head genesis_chain) = Some genesis
   \<and> hash_of test_chain_env genesis \<noteq> hash_of test_chain_env (block_at 0 5 (test_hash 9 9))
   \<and> ParentHash (Header (block_at 0 5 (test_hash 9 9))) \<noteq> hash_of test_chain_env genesis
   \<and> ImportBlock test_chain_env genesis_chain (block_at 0 5 (test_hash 9 9))
       = (None, checkReorg test_chain_env
                  (addToSideBranch genesis_chain (block_at 0 5 (test_hash 9 9))))
   \<and> ImportBlock test_chain_env genesis_chain genesis = (Some Duplicate, genesis_chain)
   \<and> map_of (blocks genesis_chain) (Height (Header (block_at 5 1 (test_hash 4 1)))) = None
   \<and> ImportBlock test_chain_env genesis_chain (block_at 5 1 (test_hash 4 1))
       = (Some OrphanQueued,
          addToOrphanPool test_chain_env genesis_chain (block_at 5 1 (test_hash 4 1)))
   \<and> map_of (OrphanPool (addToOrphanPool test_chain_env genesis_chain
                  (block_at 5 1 (test_hash 4 1)))) (test_hash 4 1)
       = Some [block_at 5 1 (test_hash 4 1)]
   \<and> requested (addToOrphanPool test_chain_env genesis_chain (block_at 5 1 (test_hash 4 1)))
       = [test_hash 4 1]"
  using ImportBlock_existing_or_orphan [of genesis_chain "block_at 0 5 (test_hash 9 9)"
      genesis genesis test_chain_env]
    ImportBlock_existing_or_orphan [of genesis_chain genesis genesis genesis test_chain_env]
    ImportBlock_existing_or_orphan [of genesis_chain "block_at 5 1 (test_hash 4 1)"
      genesis genesis test_chain_env]
    test_hash_distinct
  by (simp add: genesis_chain_def block_at_fields genesis_hash hash_of_block_at
      length_test_hash test_chain_env_callback genesis_fields)

text \<open>
  The claim as stated fails where the two indexes differ. A reorganisation enters the
  blocks of the branch by height only: after it, the block of height 8 is on the main
  chain and not in the hash index. A block of height 9 that names it as its parent finds
  no block at its height and no parent in \<open>by_hash\<close>, yet it is imported without error.
\<close>

theorem ImportBlock_by_height_counterexample:
  "map_of (blocks reorged_chain) (Height (Header (block_at 9 1 (test_hash 8 1)))) = None
   \<and> map_of (blockHashIndex reorged_chain) (ParentHash (Header (block_at 9 1 (test_hash 8 1))))
       = None
   \<and> fst (ImportBlock test_chain_env reorged_chain (block_at 9 1 (test_hash 8 1))) = None"
proof -
  let ?z = "block_at 9 1 (test_hash 8 1)"
  have "find (\<lambda>(h, x). hash_of test_chain_env x = ParentHash (Header ?z)) (blocks reorged_chain)
      = Some (8, block_at 8 1 (test_hash 0 0))"
    using test_hash_distinct
    by (simp add: reorged_chain_facts(9) block_at_fields genesis_hash hash_of_block_at
        length_test_hash)
  then have "fst (ImportBlock test_chain_env reorged_chain ?z) = None"
    by (subst import_extends [where k = 8 and parent = "block_at 8 1 (test_hash 0 0)"])
      (simp_all add: reorged_chain_facts(1-7) block_at_fields)
  then show ?thesis
    by (simp add: reorged_chain_facts(1-7) block_at_fields)
qed



end
